theory Spec2Isabelle
  imports Main "HOL-Library.Multiset"
begin

section \<open>Values of the source language\<close>

text \<open>
  The program is JavaScript. Its strings are modelled as byte strings (the UTF-8
  encoding of the JavaScript string), its numbers as \<open>NaN\<close> or an integer: every
  number the classifier meets is produced by \<open>parseInt\<close> or written as an integer
  literal. Integers up to \<open>2^53\<close> are exact in the source's number type; a digit string
  that denotes a larger number, which the source would round, is outside the model.
\<close>

datatype number = NaN | Num int

text \<open>\<open>Number.isNaN(n)\<close>.\<close>

fun isNaN :: "number \<Rightarrow> bool" where
  "isNaN NaN = True"
| "isNaN (Num _) = False"

text \<open>The comparisons \<open>a >= b\<close> and \<open>a <= b\<close>: false as soon as one side is \<open>NaN\<close>.\<close>

fun num_ge :: "number \<Rightarrow> number \<Rightarrow> bool" where
  "num_ge (Num a) (Num b) = (b \<le> a)"
| "num_ge _ _ = False"

fun num_le :: "number \<Rightarrow> number \<Rightarrow> bool" where
  "num_le (Num a) (Num b) = (a \<le> b)"
| "num_le _ _ = False"

subsection \<open>White space and \<open>trim\<close>\<close>

text \<open>
  The white space and line terminator characters that \<open>String.prototype.trim\<close> and
  \<open>parseInt\<close> skip, as UTF-8 byte sequences: TAB, LF, VT, FF, CR, SP; U+00A0;
  U+1680; U+2000 to U+200A, U+2028, U+2029, U+202F; U+205F; U+3000; U+FEFF.
\<close>

definition is_ws1 :: "char \<Rightarrow> bool" where
  "is_ws1 a = (a \<in> set [CHR 0x09, CHR 0x0A, CHR 0x0B, CHR 0x0C, CHR 0x0D, CHR 0x20])"

definition is_ws2 :: "char \<Rightarrow> char \<Rightarrow> bool" where
  "is_ws2 a b = (a = CHR 0xC2 \<and> b = CHR 0xA0)"

definition is_ws3 :: "char \<Rightarrow> char \<Rightarrow> char \<Rightarrow> bool" where
  "is_ws3 a b c =
     ((a = CHR 0xE1 \<and> b = CHR 0x9A \<and> c = CHR 0x80) \<or>
      (a = CHR 0xE2 \<and> b = CHR 0x80 \<and>
         c \<in> set [CHR 0x80, CHR 0x81, CHR 0x82, CHR 0x83, CHR 0x84, CHR 0x85, CHR 0x86,
                  CHR 0x87, CHR 0x88, CHR 0x89, CHR 0x8A, CHR 0xA8, CHR 0xA9, CHR 0xAF]) \<or>
      (a = CHR 0xE2 \<and> b = CHR 0x81 \<and> c = CHR 0x9F) \<or>
      (a = CHR 0xE3 \<and> b = CHR 0x80 \<and> c = CHR 0x80) \<or>
      (a = CHR 0xEF \<and> b = CHR 0xBB \<and> c = CHR 0xBF))"

fun trimStart :: "string \<Rightarrow> string" where
  "trimStart (a # b # c # s) =
     (if is_ws1 a then trimStart (b # c # s)
      else if is_ws2 a b then trimStart (c # s)
      else if is_ws3 a b c then trimStart s
      else a # b # c # s)"
| "trimStart [a, b] =
     (if is_ws1 a then trimStart [b] else if is_ws2 a b then [] else [a, b])"
| "trimStart [a] = (if is_ws1 a then [] else [a])"
| "trimStart [] = []"

text \<open>The same scan from the end of the string: the argument is the reversed string.\<close>

fun trimStart_rev :: "string \<Rightarrow> string" where
  "trimStart_rev (c # b # a # s) =
     (if is_ws1 c then trimStart_rev (b # a # s)
      else if is_ws2 b c then trimStart_rev (a # s)
      else if is_ws3 a b c then trimStart_rev s
      else c # b # a # s)"
| "trimStart_rev [c, b] =
     (if is_ws1 c then trimStart_rev [b] else if is_ws2 b c then [] else [c, b])"
| "trimStart_rev [c] = (if is_ws1 c then [] else [c])"
| "trimStart_rev [] = []"

definition trimEnd :: "string \<Rightarrow> string" where
  "trimEnd s = rev (trimStart_rev (rev s))"

definition trim :: "string \<Rightarrow> string" where
  "trim s = trimEnd (trimStart s)"

subsection \<open>\<open>parseInt(s, 10)\<close>\<close>

definition is_digit :: "char \<Rightarrow> bool" where
  "is_digit c = (c \<in> set ''0123456789'')"

definition digit_val :: "char \<Rightarrow> int" where
  "digit_val c = int (of_char c) - 48"

definition digits_value :: "string \<Rightarrow> int" where
  "digits_value Z = foldl (\<lambda>acc c. 10 * acc + digit_val c) 0 Z"

text \<open>
  \<open>parseInt\<close> with radix 10: skip leading white space, read one optional sign, take
  the longest prefix of decimal digits; \<open>NaN\<close> when that prefix is empty. Whatever
  follows the digits is ignored.
\<close>

definition strip_sign :: "string \<Rightarrow> string" where
  "strip_sign S = (case S of [] \<Rightarrow> [] | c # r \<Rightarrow> if c = CHR ''+'' \<or> c = CHR ''-'' then r else S)"

definition sign_of :: "string \<Rightarrow> int" where
  "sign_of S = (case S of [] \<Rightarrow> 1 | c # r \<Rightarrow> if c = CHR ''-'' then - 1 else 1)"

definition parseInt :: "string \<Rightarrow> number" where
  "parseInt s =
     (let S = trimStart s;
          Z = takeWhile is_digit (strip_sign S)
      in if Z = [] then NaN else Num (sign_of S * digits_value Z))"

section \<open>The classifier\<close>

text \<open>
  A range is the two-element array \<open>[lo, hi]\<close>; a rolling-stock entry is
  \<open>{ model, ranges, division }\<close>.
\<close>

type_synonym range = "number \<times> number"

record stock_entry =
  model :: string
  ranges :: "range list"
  division :: string

text \<open>
  \<^verbatim>\<open>
  function detectModelFromNumber(numStr, rollingStock) {
    const n = parseInt(numStr, 10);
    if (Number.isNaN(n)) return null;
    for (const entry of rollingStock) {
      for (const [lo, hi] of entry.ranges) {
        if (n >= lo && n <= hi) return { model: entry.model, division: entry.division };
      }
    }
    return null;
  }
  \<close>
  The inner loop is \<open>ranges_loop\<close> (true when its \<open>return\<close> fires), the outer loop
  is \<open>entries_loop\<close>; the result \<open>{ model, division }\<close> is a pair, \<open>null\<close> is \<open>None\<close>.
\<close>

fun ranges_loop :: "number \<Rightarrow> range list \<Rightarrow> bool" where
  "ranges_loop n [] = False"
| "ranges_loop n ((lo, hi) # rest) =
     (if num_ge n lo \<and> num_le n hi then True else ranges_loop n rest)"

fun entries_loop :: "number \<Rightarrow> stock_entry list \<Rightarrow> (string \<times> string) option" where
  "entries_loop n [] = None"
| "entries_loop n (entry # rest) =
     (if ranges_loop n (ranges entry) then Some (model entry, division entry)
      else entries_loop n rest)"

definition detectModelFromNumber :: "string \<Rightarrow> stock_entry list \<Rightarrow> (string \<times> string) option" where
  "detectModelFromNumber numStr rollingStock =
     (let n = parseInt numStr
      in if isNaN n then None else entries_loop n rollingStock)"

text \<open>
  The seed table of \<open>prefillDatasets\<close> (its \<open>rollingStock\<close> field), in the order of
  the source.
\<close>

definition seed_rollingStock :: "stock_entry list" where
  "seed_rollingStock =
    [\<lparr>model = ''R62'', ranges = [(Num 1301, Num 1390), (Num 1601, Num 1625)], division = ''A''\<rparr>,
     \<lparr>model = ''R62A'', ranges = [(Num 1651, Num 2150)], division = ''A''\<rparr>,
     \<lparr>model = ''R142'', ranges = [(Num 6301, Num 6899)], division = ''A''\<rparr>,
     \<lparr>model = ''R142A'', ranges = [(Num 7211, Num 7590)], division = ''A''\<rparr>,
     \<lparr>model = ''R188'', ranges = [(Num 7811, Num 7936)], division = ''A''\<rparr>,
     \<lparr>model = ''R68'', ranges = [(Num 2500, Num 2790)], division = ''B''\<rparr>,
     \<lparr>model = ''R68A'', ranges = [(Num 5001, Num 5296)], division = ''B''\<rparr>,
     \<lparr>model = ''R160A'', ranges = [(Num 8313, Num 8652)], division = ''B''\<rparr>,
     \<lparr>model = ''R160B'', ranges = [(Num 8713, Num 9942)], division = ''B''\<rparr>,
     \<lparr>model = ''R179'', ranges = [(Num 3010, Num 3327)], division = ''B''\<rparr>,
     \<lparr>model = ''R211A'', ranges = [(Num 4000, Num 4399)], division = ''B''\<rparr>,
     \<lparr>model = ''R211S (Staten Island)'', ranges = [(Num 100, Num 199)], division = ''SIR''\<rparr>]"

text \<open>Two of its entries, named for use in examples.\<close>

definition R179 :: stock_entry where
  "R179 = \<lparr>model = ''R179'', ranges = [(Num 3010, Num 3327)], division = ''B''\<rparr>"

definition R211A :: stock_entry where
  "R211A = \<lparr>model = ''R211A'', ranges = [(Num 4000, Num 4399)], division = ''B''\<rparr>"

subsection \<open>The classifier as the specification words it\<close>

text \<open>
  A range contains a number when \<open>low \<le> n \<le> high\<close>, both ends included; an entry
  matches a number when one of its ranges contains it.
\<close>

definition contains :: "range \<Rightarrow> int \<Rightarrow> bool" where
  "contains r n = (case r of (Num lo, Num hi) \<Rightarrow> lo \<le> n \<and> n \<le> hi | _ \<Rightarrow> False)"

definition has_range :: "int \<Rightarrow> stock_entry \<Rightarrow> bool" where
  "has_range n e = list_ex (\<lambda>r. contains r n) (ranges e)"

text \<open>
  A string "parses as a base-10 integer", in the ordinary sense of the words, when it is
  an optional sign followed by one or more decimal digits and nothing else.
\<close>

definition decimal_integer :: "string \<Rightarrow> bool" where
  "decimal_integer s = (strip_sign s \<noteq> [] \<and> list_all is_digit (strip_sign s))"

definition starts_with_digit :: "string \<Rightarrow> bool" where
  "starts_with_digit s = (case s of [] \<Rightarrow> False | c # _ \<Rightarrow> is_digit c)"

text \<open>
  Two ranges overlap when some number lies in both: for \<open>[a, b]\<close> and \<open>[c, d]\<close> that is
  \<open>max a c \<le> min b d\<close> (lemma \<open>overlap_iff\<close>). The ranges of a table are pairwise
  disjoint when no two of them, taken at different places of the table, overlap.
\<close>

definition overlap :: "range \<Rightarrow> range \<Rightarrow> bool" where
  "overlap r r' =
     (case (r, r') of ((Num a, Num b), (Num c, Num d)) \<Rightarrow> max a c \<le> min b d | _ \<Rightarrow> False)"

fun pairwise_disjoint :: "range list \<Rightarrow> bool" where
  "pairwise_disjoint [] = True"
| "pairwise_disjoint (r # rs) = (list_all (\<lambda>r'. \<not> overlap r r') rs \<and> pairwise_disjoint rs)"

definition disjoint_table :: "stock_entry list \<Rightarrow> bool" where
  "disjoint_table T = pairwise_disjoint (concat (map ranges T))"

text \<open>A range \<open>[lo, hi]\<close> with \<open>lo > hi\<close>, and an entry with such ranges left out.\<close>

definition inverted :: "range \<Rightarrow> bool" where
  "inverted r = (case r of (Num lo, Num hi) \<Rightarrow> hi < lo | _ \<Rightarrow> False)"

definition drop_inverted :: "stock_entry \<Rightarrow> stock_entry" where
  "drop_inverted e = e\<lparr>ranges := filter (\<lambda>r. \<not> inverted r) (ranges e)\<rparr>"

text \<open>Fixtures: an entry whose range lies inside that of \<open>R211A\<close>, and one with an inverted range.\<close>

definition R211T :: stock_entry where
  "R211T = \<lparr>model = ''R211T'', ranges = [(Num 4040, Num 4059)], division = ''B''\<rparr>"

definition backwards :: stock_entry where
  "backwards = \<lparr>model = ''New Model'', ranges = [(Num 4399, Num 4000)], division = ''A''\<rparr>"

section \<open>Plain values and the engine's built-ins\<close>

text \<open>
  The values that \<open>JSON.parse\<close> returns and \<open>JSON.stringify\<close> accepts: \<open>null\<close>,
  booleans, numbers, strings, arrays and objects (a list of pairs of a key and a value,
  the keys distinct, in insertion order).
\<close>

datatype json =
  JNull | JBool bool | JNum number | JStr string | JArr "json list" | JObj "(string \<times> json) list"

text \<open>\<open>Array.isArray(v)\<close>, and the elements of an array.\<close>

fun isArray :: "json \<Rightarrow> bool" where
  "isArray (JArr _) = True"
| "isArray _ = False"

fun elements :: "json \<Rightarrow> json list" where
  "elements (JArr xs) = xs"
| "elements _ = []"

text \<open>A value in a condition: \<open>null\<close>, \<open>false\<close>, \<open>0\<close>, \<open>NaN\<close> and the empty string are falsy.\<close>

fun truthy :: "json \<Rightarrow> bool" where
  "truthy JNull = False"
| "truthy (JBool b) = b"
| "truthy (JNum n) = (n \<noteq> NaN \<and> n \<noteq> Num 0)"
| "truthy (JStr s) = (s \<noteq> [])"
| "truthy _ = True"

text \<open>
  What a \<open>throw\<close> carries. \<open>err.message\<close> is \<open>message_of\<close>; the program reads it only
  from a \<open>SyntaxError\<close> of \<open>JSON.parse\<close> and from its own \<open>Error\<close>.
\<close>

datatype error =
  TypeError | URIError | SyntaxError string | Error string | SecurityError | QuotaExceededError

fun message_of :: "error \<Rightarrow> string" where
  "message_of (SyntaxError m) = m"
| "message_of (Error m) = m"
| "message_of _ = []"

text \<open>
  \<open>JSON.parse\<close> and \<open>JSON.stringify\<close> are functions of the engine, not of the program:
  they are parameters of the model. \<open>JSON.parse\<close> returns the value, or throws a
  \<open>SyntaxError\<close> with a message (\<open>Inl\<close>).
\<close>

record builtins =
  JSON_parse :: "string \<Rightarrow> string + json"
  JSON_stringify :: "json \<Rightarrow> string"

subsection \<open>\<open>encodeURIComponent\<close> and \<open>decodeURIComponent\<close>\<close>

text \<open>
  Well-formed UTF-8 (the Unicode standard's table of well-formed byte sequences). A byte
  string that is not well formed stands for a JavaScript string with an unpaired surrogate.
\<close>

definition byte :: "char \<Rightarrow> nat" where
  "byte c = of_char c"

definition between :: "nat \<Rightarrow> nat \<Rightarrow> char \<Rightarrow> bool" where
  "between lo hi c = (lo \<le> byte c \<and> byte c \<le> hi)"

fun utf8_valid :: "string \<Rightarrow> bool" where
  "utf8_valid [] = True"
| "utf8_valid (a # s) =
     (if byte a < 0x80 then utf8_valid s
      else if between 0xC2 0xDF a then
        (case s of b # s' \<Rightarrow> between 0x80 0xBF b \<and> utf8_valid s' | _ \<Rightarrow> False)
      else if between 0xE0 0xEF a then
        (case s of b # c # s' \<Rightarrow>
           between (if byte a = 0xE0 then 0xA0 else 0x80) (if byte a = 0xED then 0x9F else 0xBF) b \<and>
           between 0x80 0xBF c \<and> utf8_valid s'
         | _ \<Rightarrow> False)
      else if between 0xF0 0xF4 a then
        (case s of b # c # d # s' \<Rightarrow>
           between (if byte a = 0xF0 then 0x90 else 0x80) (if byte a = 0xF4 then 0x8F else 0xBF) b \<and>
           between 0x80 0xBF c \<and> between 0x80 0xBF d \<and> utf8_valid s'
         | _ \<Rightarrow> False)
      else False)"

text \<open>
  \<open>encodeURIComponent\<close> keeps the unreserved characters and writes every other byte of
  the UTF-8 encoding as \<open>%XX\<close>, in upper-case hexadecimal; it throws a \<open>URIError\<close> on an
  unpaired surrogate.
\<close>

definition unreserved :: "char \<Rightarrow> bool" where
  "unreserved c =
     (c \<in> set ''ABCDEFGHIJKLMNOPQRSTUVWXYZabcdefghijklmnopqrstuvwxyz0123456789-_.!~*'()'')"

definition hex_digit :: "nat \<Rightarrow> char" where
  "hex_digit n = ''0123456789ABCDEF'' ! n"

definition uri_escape :: "char \<Rightarrow> string" where
  "uri_escape c =
     (if unreserved c then [c]
      else [CHR ''%'', hex_digit (byte c div 16), hex_digit (byte c mod 16)])"

definition uri_escape_all :: "string \<Rightarrow> string" where
  "uri_escape_all s = concat (map uri_escape s)"

definition encodeURIComponent :: "string \<Rightarrow> string option" where
  "encodeURIComponent s = (if utf8_valid s then Some (uri_escape_all s) else None)"

text \<open>
  \<open>decodeURIComponent\<close> replaces every \<open>%XX\<close> by its byte and throws a \<open>URIError\<close>
  (\<open>None\<close>) when a \<open>%\<close> is not followed by two hexadecimal digits or when the escaped
  bytes are not well-formed UTF-8. On a well-formed string the test of the escaped bytes
  is the test of the whole result.
\<close>

definition hex_val :: "char \<Rightarrow> nat option" where
  "hex_val c =
     (if c \<in> set ''0123456789'' then Some (byte c - 48)
      else if c \<in> set ''ABCDEF'' then Some (byte c - 55)
      else if c \<in> set ''abcdef'' then Some (byte c - 87)
      else None)"

fun uri_unescape :: "string \<Rightarrow> string option" where
  "uri_unescape [] = Some []"
| "uri_unescape (c # s) =
     (if c = CHR ''%'' then
        (case s of
           h1 # h2 # s' \<Rightarrow>
             (case (hex_val h1, hex_val h2) of
                (Some x, Some y) \<Rightarrow> map_option ((#) (char_of (16 * x + y))) (uri_unescape s')
              | _ \<Rightarrow> None)
         | _ \<Rightarrow> None)
      else map_option ((#) c) (uri_unescape s))"

definition decodeURIComponent :: "string \<Rightarrow> string option" where
  "decodeURIComponent s =
     (case uri_unescape s of
        None \<Rightarrow> None
      | Some bs \<Rightarrow> if utf8_valid bs then Some bs else None)"

subsection \<open>Strings: \<open>split\<close> and \<open>startsWith\<close>\<close>

text \<open>\<open>s.split(sep)\<close> for a separator of one character: never the empty array.\<close>

fun split_on :: "char \<Rightarrow> string \<Rightarrow> string list" where
  "split_on sep [] = [[]]"
| "split_on sep (c # s) =
     (if c = sep then [] # split_on sep s
      else (case split_on sep s of p # ps \<Rightarrow> (c # p) # ps | [] \<Rightarrow> [[c]]))"

definition startsWith :: "string \<Rightarrow> string \<Rightarrow> bool" where
  "startsWith s p = (take (length p) s = p)"

section \<open>The ride ledger in a cookie\<close>

definition COOKIE_NAME :: string where
  "COOKIE_NAME = ''nyc_subway_rides''"

subsection \<open>The browser's cookie store\<close>

text \<open>
  \<open>document.cookie\<close> is a property of the browser. The store is a list of name and value
  pairs in the order the getter lists them. The getter joins \<open>name=value\<close> with \<open>; \<close>.
  The setter reads the text up to the first \<open>;\<close> as \<open>name=value\<close>, cut at the first
  \<open>=\<close>, strips spaces and tabs around both, ignores the assignment when there is no
  \<open>=\<close>, when the name is empty or when name and value together are longer than 4096
  bytes, and otherwise replaces the value of the cookie of that name or adds the cookie
  at the end. The attributes after the first \<open>;\<close>
  (here a positive \<open>Max-Age\<close> and \<open>Path=/\<close>) do not change what the getter returns.
\<close>

type_synonym cookie_jar = "(string \<times> string) list"

definition is_wsp :: "char \<Rightarrow> bool" where
  "is_wsp c = (c = CHR 0x20 \<or> c = CHR 0x09)"

definition strip_wsp :: "string \<Rightarrow> string" where
  "strip_wsp s = rev (dropWhile is_wsp (rev (dropWhile is_wsp s)))"

fun join_cookies :: "string list \<Rightarrow> string" where
  "join_cookies [] = []"
| "join_cookies [p] = p"
| "join_cookies (p # q # ps) = p @ ''; '' @ join_cookies (q # ps)"

definition document_cookie_get :: "cookie_jar \<Rightarrow> string" where
  "document_cookie_get jar = join_cookies (map (\<lambda>(k, v). k @ ''='' @ v) jar)"

definition document_cookie_set :: "string \<Rightarrow> cookie_jar \<Rightarrow> cookie_jar" where
  "document_cookie_set assignment jar =
     (let pair = takeWhile (\<lambda>c. c \<noteq> CHR '';'') assignment;
          name = strip_wsp (takeWhile (\<lambda>c. c \<noteq> CHR ''='') pair);
          val = strip_wsp (drop 1 (dropWhile (\<lambda>c. c \<noteq> CHR ''='') pair))
      in if CHR ''='' \<notin> set pair \<or> name = [] \<or> 4096 < length name + length val then jar
         else if list_ex (\<lambda>(k, v). k = name) jar
           then map (\<lambda>(k, v). if k = name then (k, val) else (k, v)) jar
         else jar @ [(name, val)])"

subsection \<open>Reading and writing the rides\<close>

text \<open>
  \<^verbatim>\<open>
  function readRidesFromCookie() {
    try {
      const match = document.cookie
        .split(";")
        .map((c) => c.trim())
        .find((c) => c.startsWith(`${COOKIE_NAME}=`));
      if (!match) return [];
      const raw = decodeURIComponent(match.split("=")[1] || "");
      const arr = JSON.parse(raw);
      return Array.isArray(arr) ? arr : [];
    } catch {
      return [];
    }
  }
  \<close>
  The argument \<open>cookie\<close> is the string that \<open>document.cookie\<close> returns.
  \<open>readRides_try\<close> is the body of the \<open>try\<close>, with every \<open>throw\<close> an \<open>Inl\<close>.
\<close>

definition find_cookie :: "string \<Rightarrow> string option" where
  "find_cookie cookie =
     List.find (\<lambda>c. startsWith c (COOKIE_NAME @ ''='')) (map trim (split_on CHR '';'' cookie))"

text \<open>\<open>match.split("=")[1] || ""\<close>\<close>

definition second_part :: "string \<Rightarrow> string" where
  "second_part m = (case split_on CHR ''='' m of _ # v # _ \<Rightarrow> v | _ \<Rightarrow> [])"

definition readRides_try :: "builtins \<Rightarrow> string \<Rightarrow> error + json list" where
  "readRides_try B cookie =
     (case find_cookie cookie of
        None \<Rightarrow> Inr []
      | Some m \<Rightarrow>
          (case decodeURIComponent (second_part m) of
             None \<Rightarrow> Inl URIError
           | Some raw \<Rightarrow>
               (case JSON_parse B raw of
                  Inl msg \<Rightarrow> Inl (SyntaxError msg)
                | Inr arr \<Rightarrow> Inr (if isArray arr then elements arr else []))))"

definition readRidesFromCookie :: "builtins \<Rightarrow> string \<Rightarrow> json list" where
  "readRidesFromCookie B cookie =
     (case readRides_try B cookie of Inl _ \<Rightarrow> [] | Inr rides \<Rightarrow> rides)"

text \<open>
  \<^verbatim>\<open>
  function writeRidesToCookie(rides) {
    try {
      const value = encodeURIComponent(JSON.stringify(rides));
      const maxAge = 60 * 60 * 24 * 400;
      document.cookie = `${COOKIE_NAME}=${value}; Max-Age=${maxAge}; Path=/`;
    } catch {}
  }
  \<close>
  \<open>60 * 60 * 24 * 400\<close> is \<open>34560000\<close>.
\<close>

definition writeRides_try :: "builtins \<Rightarrow> json list \<Rightarrow> cookie_jar \<Rightarrow> error + cookie_jar" where
  "writeRides_try B rides jar =
     (case encodeURIComponent (JSON_stringify B (JArr rides)) of
        None \<Rightarrow> Inl URIError
      | Some v \<Rightarrow>
          Inr (document_cookie_set (COOKIE_NAME @ ''='' @ v @ ''; Max-Age=34560000; Path=/'') jar))"

definition writeRidesToCookie :: "builtins \<Rightarrow> json list \<Rightarrow> cookie_jar \<Rightarrow> cookie_jar" where
  "writeRidesToCookie B rides jar =
     (case writeRides_try B rides jar of Inl _ \<Rightarrow> jar | Inr jar' \<Rightarrow> jar')"

subsection \<open>The ledger of a component\<close>

text \<open>
  \<^verbatim>\<open>
  function useCookieRides() {
    const [rides, setRides] = useState(readRidesFromCookie());
    useEffect(() => writeRidesToCookie(rides), [rides]);
    return [rides, setRides];
  }
  \<close>
  The state a component works on: its \<open>rides\<close>, the browser's cookies, and the messages
  that \<open>alert\<close> has shown, oldest first.

  \<open>setRides\<close> is the setter of the state: it stores the new array and writes nothing.
  \<open>rides_effect\<close> is the function given to \<open>useEffect\<close>: it writes the rides of the state
  to the cookie. React calls it after a render with new \<open>rides\<close> has been committed; a
  render that throws commits nothing, and the effect is then not called.
\<close>

record ledger =
  rides :: "json list"
  cookies :: cookie_jar
  alerts :: "string list"

definition setRides :: "json list \<Rightarrow> ledger \<Rightarrow> ledger" where
  "setRides r st = st\<lparr>rides := r\<rparr>"

definition rides_effect :: "builtins \<Rightarrow> ledger \<Rightarrow> ledger" where
  "rides_effect B st = st\<lparr>cookies := writeRidesToCookie B (rides st) (cookies st)\<rparr>"

definition alert :: "string \<Rightarrow> ledger \<Rightarrow> ledger" where
  "alert msg st = st\<lparr>alerts := alerts st @ [msg]\<rparr>"

text \<open>
  \<^verbatim>\<open>
  function importRides(e) {
    const file = e.target.files?.[0];
    if (!file) return;
    const reader = new FileReader();
    reader.onload = () => {
      try {
        const parsed = JSON.parse(String(reader.result));
        if (!Array.isArray(parsed)) throw new Error("Expected an array of rides");
        setRides(parsed);
        alert("Imported rides into cookie.");
      } catch (err) {
        alert("Invalid JSON: " + err.message);
      }
    };
    reader.readAsText(file);
  }
  \<close>
  The file is \<open>None\<close> when none was chosen, and its text otherwise; \<open>importRides_try\<close> is
  the body of the \<open>try\<close> in the \<open>onload\<close> handler.

  \<open>importRides\<close> is the handler and nothing more: it sets the state and shows a message,
  and does not touch the cookie. The cookie is written by \<open>rides_effect\<close>, a step of its
  own, after the page has rendered the imported array. Whether that render commits is
  decided by React and by what the table of rides makes of the elements of the file,
  which the handler does not look at (on an element \<open>null\<close> the filter of \<open>RideTable\<close>
  reads \<open>r.trainNumber\<close> and throws); it is not part of this model.
\<close>

definition importRides_try :: "builtins \<Rightarrow> string \<Rightarrow> ledger \<Rightarrow> error + ledger" where
  "importRides_try B txt st =
     (case JSON_parse B txt of
        Inl msg \<Rightarrow> Inl (SyntaxError msg)
      | Inr parsed \<Rightarrow>
          if \<not> isArray parsed then Inl (Error ''Expected an array of rides'')
          else Inr (alert ''Imported rides into cookie.'' (setRides (elements parsed) st)))"

definition importRides :: "builtins \<Rightarrow> string option \<Rightarrow> ledger \<Rightarrow> ledger" where
  "importRides B file st =
     (case file of
        None \<Rightarrow> st
      | Some txt \<Rightarrow>
          (case importRides_try B txt st of
             Inl err \<Rightarrow> alert (''Invalid JSON: '' @ message_of err) st
           | Inr st' \<Rightarrow> st'))"




section \<open>The dataset store\<close>

definition DATA_KEY :: string where
  "DATA_KEY = ''nyc_subway_datasets_v1''"

text \<open>
  \<open>localStorage\<close> is a property of the browser: its items, whether access to it is
  blocked (every call throws a \<open>SecurityError\<close>), and how long a value it still has room
  for (\<open>setItem\<close> throws a \<open>QuotaExceededError\<close> on a longer one).
\<close>

record storage =
  items :: "string \<rightharpoonup> string"
  blocked :: bool
  room :: nat

definition getItem :: "storage \<Rightarrow> string \<Rightarrow> error + string option" where
  "getItem st k = (if blocked st then Inl SecurityError else Inr (items st k))"

definition setItem :: "storage \<Rightarrow> string \<Rightarrow> string \<Rightarrow> error + storage" where
  "setItem st k v =
     (if blocked st then Inl SecurityError
      else if room st < length v then Inl QuotaExceededError
      else Inr (st\<lparr>items := (items st)(k \<mapsto> v)\<rparr>))"

text \<open>
  \<^verbatim>\<open>
  function loadDatasets() {
    try {
      const raw = localStorage.getItem(DATA_KEY);
      return raw ? JSON.parse(raw) : null;
    } catch {
      return null;
    }
  }

  function saveDatasets(ds) {
    localStorage.setItem(DATA_KEY, JSON.stringify(ds));
  }
  \<close>
\<close>

definition loadDatasets_try :: "builtins \<Rightarrow> storage \<Rightarrow> error + json" where
  "loadDatasets_try B st =
     (case getItem st DATA_KEY of
        Inl e \<Rightarrow> Inl e
      | Inr None \<Rightarrow> Inr JNull
      | Inr (Some raw) \<Rightarrow>
          if raw = [] then Inr JNull
          else (case JSON_parse B raw of Inl msg \<Rightarrow> Inl (SyntaxError msg) | Inr v \<Rightarrow> Inr v))"

definition loadDatasets :: "builtins \<Rightarrow> storage \<Rightarrow> json" where
  "loadDatasets B st = (case loadDatasets_try B st of Inl _ \<Rightarrow> JNull | Inr v \<Rightarrow> v)"

definition saveDatasets :: "builtins \<Rightarrow> json \<Rightarrow> storage \<Rightarrow> error + storage" where
  "saveDatasets B ds st = setItem st DATA_KEY (JSON_stringify B ds)"

text \<open>
  The seed of \<open>prefillDatasets\<close> as a plain value. A line is
  \<open>{ id, label, division, color, terminals }\<close>; the dash in the names of the terminals
  is U+2013.
\<close>

record line_entry =
  line_id :: string
  label :: string
  line_division :: string
  color :: string
  terminals :: "string \<times> string"

definition endash :: string where
  "endash = [CHR 0xE2, CHR 0x80, CHR 0x93]"

definition mk_line :: "string \<Rightarrow> string \<Rightarrow> string \<Rightarrow> string \<Rightarrow> string \<Rightarrow> line_entry" where
  "mk_line i d c t1 t2 =
     \<lparr>line_id = i, label = i, line_division = d, color = c, terminals = (t1, t2)\<rparr>"

definition seed_lines :: "line_entry list" where
  "seed_lines =
    [mk_line ''1'' ''A'' ''#EE352E'' (''Van Cortlandt Park'' @ endash @ ''242 St'') ''South Ferry'',
     mk_line ''2'' ''A'' ''#EE352E'' (''Wakefield'' @ endash @ ''241 St'') (''Flatbush Av'' @ endash @ ''Bklyn College''),
     mk_line ''3'' ''A'' ''#EE352E'' (''Harlem'' @ endash @ ''148 St'') ''New Lots Av'',
     mk_line ''4'' ''A'' ''#00933C'' ''Woodlawn'' (''Crown Hts'' @ endash @ ''Utica Av / New Lots Av''),
     mk_line ''5'' ''A'' ''#00933C'' (''Eastchester'' @ endash @ ''Dyre Av / Nereid Av'') ''Flatbush Av / Bowling Green'',
     mk_line ''6'' ''A'' ''#00933C'' ''Pelham Bay Park'' (''Brooklyn Bridge'' @ endash @ ''City Hall / Parkchester''),
     mk_line ''7'' ''A'' ''#B933AD'' (''Flushing'' @ endash @ ''Main St'') (''34 St'' @ endash @ ''Hudson Yards''),
     mk_line ''S'' ''A'' ''#808183'' (''Times Sq'' @ endash @ ''42 St'') (''Grand Central'' @ endash @ ''42 St''),
     mk_line ''A'' ''B'' ''#2850AD'' (''Inwood'' @ endash @ ''207 St'')
       (''Far Rockaway'' @ endash @ ''Mott Ave / Lefferts Blvd / Rockaway Park''),
     mk_line ''B'' ''B'' ''#FF6319'' ''Bedford Park Blvd'' ''Brighton Beach'',
     mk_line ''C'' ''B'' ''#2850AD'' ''168 St'' ''Euclid Av'',
     mk_line ''D'' ''B'' ''#FF6319'' (''Norwood'' @ endash @ ''205 St'') (''Coney Island'' @ endash @ ''Stillwell Av''),
     mk_line ''E'' ''B'' ''#2850AD'' (''Jamaica Center'' @ endash @ ''Parsons/Archer'') ''World Trade Center'',
     mk_line ''F'' ''B'' ''#FF6319'' (''Jamaica'' @ endash @ ''179 St / 21 St'' @ endash @ ''Queensbridge'')
       (''Coney Island'' @ endash @ ''Stillwell Av''),
     mk_line ''G'' ''B'' ''#6CBE45'' ''Court Sq'' ''Church Av'',
     mk_line ''J'' ''B'' ''#996633'' (''Jamaica Center'' @ endash @ ''Parsons/Archer'') ''Broad St'',
     mk_line ''Z'' ''B'' ''#996633'' (''Jamaica Center'' @ endash @ ''Parsons/Archer'') ''Broad St'',
     mk_line ''L'' ''B'' ''#A7A9AC'' ''8 Av'' (''Canarsie'' @ endash @ ''Rockaway Pkwy''),
     mk_line ''M'' ''B'' ''#FF6319''
       (''Forest Hills'' @ endash @ ''71 Av / Middle Village'' @ endash @ ''Metropolitan Av'')
       (''Delancey'' @ endash @ ''Essex / 96 St (rush)''),
     mk_line ''N'' ''B'' ''#FCCC0A'' (''Astoria'' @ endash @ ''Ditmars Blvd'') (''Coney Island'' @ endash @ ''Stillwell Av''),
     mk_line ''Q'' ''B'' ''#FCCC0A'' ''96 St'' (''Coney Island'' @ endash @ ''Stillwell Av''),
     mk_line ''R'' ''B'' ''#FCCC0A'' (''Forest Hills'' @ endash @ ''71 Av'') (''Bay Ridge'' @ endash @ ''95 St''),
     mk_line ''W'' ''B'' ''#FCCC0A'' (''Astoria'' @ endash @ ''Ditmars Blvd'') (''Whitehall St'' @ endash @ ''South Ferry''),
     mk_line ''SIR'' ''SIR'' ''#0039A6'' ''St George'' ''Tottenville'']"

definition json_of_stock :: "stock_entry \<Rightarrow> json" where
  "json_of_stock e =
     JObj [(''model'', JStr (model e)),
           (''ranges'', JArr (map (\<lambda>(lo, hi). JArr [JNum lo, JNum hi]) (ranges e))),
           (''division'', JStr (division e))]"

definition json_of_line :: "line_entry \<Rightarrow> json" where
  "json_of_line l =
     JObj [(''id'', JStr (line_id l)), (''label'', JStr (label l)),
           (''division'', JStr (line_division l)), (''color'', JStr (color l)),
           (''terminals'', JArr [JStr (fst (terminals l)), JStr (snd (terminals l))])]"

definition seed_datasets :: json where
  "seed_datasets =
     JObj [(''rollingStock'', JArr (map json_of_stock seed_rollingStock)),
           (''lines'', JArr (map json_of_line seed_lines))]"

text \<open>
  \<^verbatim>\<open>
  function prefillDatasets() {
    const datasets = { rollingStock: [...], lines: [...] };
    saveDatasets(datasets);
    return datasets;
  }

  function getDatasets() {
    return loadDatasets() || prefillDatasets();
  }
  \<close>
  and the \<open>save\<close> handler of the Stats page, \<open>saveDatasets(datasets)\<close> followed by an
  \<open>alert\<close>. An \<open>Inl\<close> is an exception that leaves the function.
\<close>

definition prefillDatasets :: "builtins \<Rightarrow> storage \<Rightarrow> error + json \<times> storage" where
  "prefillDatasets B st =
     (case saveDatasets B seed_datasets st of
        Inl e \<Rightarrow> Inl e
      | Inr st' \<Rightarrow> Inr (seed_datasets, st'))"

definition getDatasets :: "builtins \<Rightarrow> storage \<Rightarrow> error + json \<times> storage" where
  "getDatasets B st =
     (let loaded = loadDatasets B st
      in if truthy loaded then Inr (loaded, st) else prefillDatasets B st)"

definition save :: "builtins \<Rightarrow> json \<Rightarrow> storage \<times> string list \<Rightarrow> error + storage \<times> string list" where
  "save B datasets sa =
     (case saveDatasets B datasets (fst sa) of
        Inl e \<Rightarrow> Inl e
      | Inr st' \<Rightarrow> Inr (st', snd sa @ [''Datasets saved to localStorage.'']))"

section \<open>Editing the datasets\<close>

text \<open>
  The edit operations of the Stats page work on objects that several snapshots can share,
  so the entries live in a store and a snapshot refers to them by address. A snapshot is
  the object \<open>{ rollingStock, lines }\<close>, each field an array of references to entries.
  No statement of the program assigns an element of an array or a field of a snapshot
  that another reference can reach (the copy \<open>{ ...datasets }\<close> is fresh), so arrays and
  snapshots are values; entry objects are cells of the store. Allocation takes the next
  free address.
\<close>

type_synonym addr = nat

record heap =
  stock_at :: "addr \<Rightarrow> stock_entry"
  line_at :: "addr \<Rightarrow> line_entry"
  next_free :: addr

record datasets =
  rollingStock :: "addr list"
  lines :: "addr list"

definition new_stock :: "stock_entry \<Rightarrow> heap \<Rightarrow> addr \<times> heap" where
  "new_stock e h =
     (next_free h, h\<lparr>stock_at := (stock_at h)(next_free h := e), next_free := Suc (next_free h)\<rparr>)"

definition new_line :: "line_entry \<Rightarrow> heap \<Rightarrow> addr \<times> heap" where
  "new_line l h =
     (next_free h, h\<lparr>line_at := (line_at h)(next_free h := l), next_free := Suc (next_free h)\<rparr>)"

text \<open>What a snapshot holds: the entries its arrays refer to, read through the store.\<close>

definition snapshot_value :: "heap \<Rightarrow> datasets \<Rightarrow> stock_entry list \<times> line_entry list" where
  "snapshot_value h ds = (map (stock_at h) (rollingStock ds), map (line_at h) (lines ds))"

text \<open>
  \<open>array.map((x, i) => ...)\<close> where the callback may allocate: the elements are visited
  in order, each with its index, and the store is threaded through.
\<close>

fun map_indexed :: "(nat \<Rightarrow> addr \<Rightarrow> heap \<Rightarrow> addr \<times> heap) \<Rightarrow> nat \<Rightarrow> addr list \<Rightarrow> heap \<Rightarrow> addr list \<times> heap" where
  "map_indexed f i [] h = ([], h)"
| "map_indexed f i (a # as) h =
     (let (a', h1) = f i a h;
          (as', h2) = map_indexed f (Suc i) as h1
      in (a' # as', h2))"

text \<open>\<open>array.filter((_, i) => i !== idx)\<close>\<close>

definition filter_index :: "nat \<Rightarrow> 'a list \<Rightarrow> 'a list" where
  "filter_index idx xs = map snd (filter (\<lambda>(i, x). i \<noteq> idx) (enumerate 0 xs))"

text \<open>
  \<^verbatim>\<open>
  function addStock() {
    setDatasets({
      ...datasets,
      rollingStock: [...datasets.rollingStock, { model: "New Model", ranges: [[0, 0]], division: "A" }],
    });
  }

  function addLine() {
    setDatasets({
      ...datasets,
      lines: [...datasets.lines, { id: "X", label: "X", division: "B", color: "#000000", terminals: ["Terminus A", "Terminus B"] }],
    });
  }
  \<close>
  Every operation returns the snapshot it passes to \<open>setDatasets\<close>, and the store.
\<close>

definition addStock :: "datasets \<Rightarrow> heap \<Rightarrow> datasets \<times> heap" where
  "addStock ds h =
     (let (a, h') = new_stock \<lparr>model = ''New Model'', ranges = [(Num 0, Num 0)], division = ''A''\<rparr> h
      in (ds\<lparr>rollingStock := rollingStock ds @ [a]\<rparr>, h'))"

definition addLine :: "datasets \<Rightarrow> heap \<Rightarrow> datasets \<times> heap" where
  "addLine ds h =
     (let (a, h') = new_line \<lparr>line_id = ''X'', label = ''X'', line_division = ''B'', color = ''#000000'',
                               terminals = (''Terminus A'', ''Terminus B'')\<rparr> h
      in (ds\<lparr>lines := lines ds @ [a]\<rparr>, h'))"

text \<open>
  \<^verbatim>\<open>
  function updateStock(idx, field, value) {
    const next = { ...datasets };
    next.rollingStock = datasets.rollingStock.map((s, i) =>
      i === idx ? { ...s, [field]: value } : s
    );
    setDatasets(next);
  }
  \<close>
  The page calls it with the fields \<open>model\<close> and \<open>division\<close>.
\<close>

datatype stock_field = Model_field | Division_field

fun set_stock_field :: "stock_field \<Rightarrow> string \<Rightarrow> stock_entry \<Rightarrow> stock_entry" where
  "set_stock_field Model_field v s = s\<lparr>model := v\<rparr>"
| "set_stock_field Division_field v s = s\<lparr>division := v\<rparr>"

definition updateStock :: "nat \<Rightarrow> stock_field \<Rightarrow> string \<Rightarrow> datasets \<Rightarrow> heap \<Rightarrow> datasets \<times> heap" where
  "updateStock idx field v ds h =
     (let (rs, h') =
            map_indexed
              (\<lambda>i s h. if i = idx then new_stock (set_stock_field field v (stock_at h s)) h else (s, h))
              0 (rollingStock ds) h
      in (ds\<lparr>rollingStock := rs\<rparr>, h'))"

text \<open>
  \<^verbatim>\<open>
  function updateStockRange(idx, rIdx, which, value) {
    const v = parseInt(value || "0", 10);
    const next = { ...datasets };
    next.rollingStock = datasets.rollingStock.map((s, i) => {
      if (i !== idx) return s;
      const ranges = s.ranges.map((r, j) => (j === rIdx ? [which === 0 ? v : r[0], which === 1 ? v : r[1]] : r));
      return { ...s, ranges };
    });
    setDatasets(next);
  }
  \<close>
\<close>

definition set_range_end :: "nat \<Rightarrow> nat \<Rightarrow> number \<Rightarrow> range list \<Rightarrow> range list" where
  "set_range_end rIdx which v rs =
     map (\<lambda>(j, r). if j = rIdx
                    then (if which = 0 then v else fst r, if which = 1 then v else snd r)
                    else r)
         (enumerate 0 rs)"

definition updateStockRange :: "nat \<Rightarrow> nat \<Rightarrow> nat \<Rightarrow> string \<Rightarrow> datasets \<Rightarrow> heap \<Rightarrow> datasets \<times> heap" where
  "updateStockRange idx rIdx which txt ds h =
     (let v = parseInt (if txt = [] then ''0'' else txt);
          (rs, h') =
            map_indexed
              (\<lambda>i s h. if i \<noteq> idx then (s, h)
                        else new_stock ((stock_at h s)\<lparr>ranges := set_range_end rIdx which v (ranges (stock_at h s))\<rparr>) h)
              0 (rollingStock ds) h
      in (ds\<lparr>rollingStock := rs\<rparr>, h'))"

text \<open>
  \<^verbatim>\<open>
  function addRange(idx) {
    const next = { ...datasets };
    next.rollingStock[idx].ranges = [...next.rollingStock[idx].ranges, [0, 0]];
    setDatasets(next);
  }
  \<close>
  \<open>next.rollingStock\<close> is the array of \<open>datasets\<close> itself, and \<open>next.rollingStock[idx]\<close>
  the entry object that \<open>datasets\<close> refers to: the assignment writes the field of that
  object. Beyond the end of the array \<open>next.rollingStock[idx]\<close> is \<open>undefined\<close>, and
  reading its \<open>ranges\<close> throws a \<open>TypeError\<close>.
\<close>

definition addRange :: "nat \<Rightarrow> datasets \<Rightarrow> heap \<Rightarrow> error + datasets \<times> heap" where
  "addRange idx ds h =
     (if idx < length (rollingStock ds) then
        let a = rollingStock ds ! idx;
            e = stock_at h a
        in Inr (ds, h\<lparr>stock_at := (stock_at h)(a := e\<lparr>ranges := ranges e @ [(Num 0, Num 0)]\<rparr>)\<rparr>)
      else Inl TypeError)"

text \<open>
  \<^verbatim>\<open>
  function removeStock(idx) {
    const next = { ...datasets };
    next.rollingStock = datasets.rollingStock.filter((_, i) => i !== idx);
    setDatasets(next);
  }

  function updateLine(idx, field, value) {
    const next = { ...datasets };
    next.lines = datasets.lines.map((l, i) => (i === idx ? { ...l, [field]: value } : l));
    setDatasets(next);
  }

  function removeLine(idx) {
    const next = { ...datasets };
    next.lines = datasets.lines.filter((_, i) => i !== idx);
    setDatasets(next);
  }
  \<close>
  The page calls \<open>updateLine\<close> with the fields \<open>id\<close>, \<open>label\<close>, \<open>division\<close> and \<open>color\<close>
  and a string, and with \<open>terminals\<close> and a pair of strings.
\<close>

definition removeStock :: "nat \<Rightarrow> datasets \<Rightarrow> heap \<Rightarrow> datasets \<times> heap" where
  "removeStock idx ds h = (ds\<lparr>rollingStock := filter_index idx (rollingStock ds)\<rparr>, h)"

datatype line_field =
  Id_field string | Label_field string | Division_of_line string | Color_field string
  | Terminals_field string string

fun set_line_field :: "line_field \<Rightarrow> line_entry \<Rightarrow> line_entry" where
  "set_line_field (Id_field v) l = l\<lparr>line_id := v\<rparr>"
| "set_line_field (Label_field v) l = l\<lparr>label := v\<rparr>"
| "set_line_field (Division_of_line v) l = l\<lparr>line_division := v\<rparr>"
| "set_line_field (Color_field v) l = l\<lparr>color := v\<rparr>"
| "set_line_field (Terminals_field a b) l = l\<lparr>terminals := (a, b)\<rparr>"

definition updateLine :: "nat \<Rightarrow> line_field \<Rightarrow> datasets \<Rightarrow> heap \<Rightarrow> datasets \<times> heap" where
  "updateLine idx fv ds h =
     (let (ls, h') =
            map_indexed
              (\<lambda>i l h. if i = idx then new_line (set_line_field fv (line_at h l)) h else (l, h))
              0 (lines ds) h
      in (ds\<lparr>lines := ls\<rparr>, h'))"

definition removeLine :: "nat \<Rightarrow> datasets \<Rightarrow> heap \<Rightarrow> datasets \<times> heap" where
  "removeLine idx ds h = (ds\<lparr>lines := filter_index idx (lines ds)\<rparr>, h)"

text \<open>A store with one entry, \<open>R211A\<close> at address 0, and the snapshot that refers to it.\<close>

definition store0 :: heap where
  "store0 = \<lparr>stock_at = (\<lambda>_. R211A), line_at = (\<lambda>_. mk_line ''X'' ''B'' ''#000000'' ''Terminus A'' ''Terminus B''),
             next_free = 1\<rparr>"

definition snapshot0 :: datasets where
  "snapshot0 = \<lparr>rollingStock = [0], lines = []\<rparr>"

section \<open>Examples and words of the specification\<close>

text \<open>Two ride records, with three of the fields of a ride.\<close>

definition ride1 :: json where
  "ride1 = JObj [(''id'', JStr ''r1''), (''trainNumber'', JStr ''4210''), (''line'', JStr ''A'')]"

definition ride2 :: json where
  "ride2 = JObj [(''id'', JStr ''r2''), (''trainNumber'', JStr ''8778''), (''line'', JStr ''Q'')]"

text \<open>
  A finite part of the engine's \<open>JSON.parse\<close> and \<open>JSON.stringify\<close>, enough to run the
  model on examples: the texts and values of \<open>example_table\<close> are converted as the
  engine converts them, every other text is taken as a syntax error.
\<close>

definition example_table :: "(string \<times> json) list" where
  \<open>example_table =
     [(''[]'', JArr []),
      (''{}'', JObj []),
      (''{"not":"an array"}'', JObj [(''not'', JStr ''an array'')]),
      (''[{"id":"r1","trainNumber":"4210","line":"A"}]'', JArr [ride1]),
      (''[{"id":"r2","trainNumber":"8778","line":"Q"}]'', JArr [ride2]),
      (''[{"id":"r1","trainNumber":"4210","line":"A"},{"id":"r2","trainNumber":"8778","line":"Q"}]'',
       JArr [ride1, ride2])]\<close>

definition example_builtins :: builtins where
  "example_builtins =
     \<lparr>JSON_parse = (\<lambda>s. case map_of example_table s of
                            None \<Rightarrow> Inl ''Unexpected token''
                          | Some v \<Rightarrow> Inr v),
      JSON_stringify = (\<lambda>v. case map_of (map (\<lambda>(s, v). (v, s)) example_table) v of
                            None \<Rightarrow> ''null''
                          | Some s \<Rightarrow> s)\<rparr>"

text \<open>An engine whose JSON text is 4081 characters long, for an example beyond the size limit.\<close>

definition long_builtins :: builtins where
  "long_builtins = \<lparr>JSON_parse = (\<lambda>s. Inl ''Unexpected token''),
                     JSON_stringify = (\<lambda>v. replicate 4081 CHR ''x'')\<rparr>"

text \<open>
  A file of a hundred rides: the array, the text \<open>JSON.stringify\<close> makes of it and
  \<open>JSON.parse\<close> reads it from, and the engine of the examples extended by the two.
\<close>

definition ride_text :: string where
  \<open>ride_text = ''{"id":"r1","trainNumber":"4210","line":"A"}''\<close>

definition hundred_rides :: "json list" where
  "hundred_rides = replicate 100 ride1"

definition hundred_text :: string where
  "hundred_text = ''['' @ concat (replicate 99 (ride_text @ '','')) @ ride_text @ '']''"

definition bulk_builtins :: builtins where
  "bulk_builtins =
     \<lparr>JSON_parse = (\<lambda>s. if s = hundred_text then Inr (JArr hundred_rides)
                         else JSON_parse example_builtins s),
      JSON_stringify = (\<lambda>v. if v = JArr hundred_rides then hundred_text
                             else JSON_stringify example_builtins v)\<rparr>"

subsection \<open>Words of the specification about the ledger\<close>




definition ledger0 :: ledger where
  "ledger0 = \<lparr>rides = [ride1, ride2], cookies = [], alerts = []\<rparr>"

text \<open>The same ledger once the effect has written its rides to the cookie.\<close>

definition ledger1 :: ledger where
  "ledger1 = rides_effect bulk_builtins ledger0"

text \<open>
  The characters a cookie value written by the program is made of, and the condition on
  the other cookies of the store under which the rides cookie is found again: no name or
  value holds a \<open>;\<close> (the browser never stores one), and no other cookie, once trimmed,
  starts with the name of the rides cookie and \<open>=\<close>.
\<close>

definition cookie_safe :: "char \<Rightarrow> bool" where
  "cookie_safe c = (unreserved c \<or> c \<in> set ''%0123456789ABCDEF'')"

definition foreign_ok :: "cookie_jar \<Rightarrow> bool" where
  "foreign_ok jar =
     list_all (\<lambda>(k, v). CHR '';'' \<notin> set (k @ v) \<and>
                 (k = COOKIE_NAME \<or> \<not> startsWith (trim (k @ ''='' @ v)) (COOKIE_NAME @ ''='')))
       jar"

text \<open>What the setter of \<open>document.cookie\<close> does with an accepted cookie.\<close>

definition put_cookie :: "string \<Rightarrow> string \<Rightarrow> cookie_jar \<Rightarrow> cookie_jar" where
  "put_cookie name v jar =
     (if list_ex (\<lambda>(k, _). k = name) jar
      then map (\<lambda>(k, v'). if k = name then (k, v) else (k, v')) jar
      else jar @ [(name, v)])"

subsection \<open>Words of the specification about snapshots\<close>

text \<open>
  A store extends another when it keeps every cell allocated there; a snapshot is
  allocated in a store when every address it holds is.
\<close>

definition extends :: "heap \<Rightarrow> heap \<Rightarrow> bool" where
  "extends h h' =
     (next_free h \<le> next_free h' \<and>
      (\<forall>a. a < next_free h \<longrightarrow> stock_at h' a = stock_at h a \<and> line_at h' a = line_at h a))"

definition allocated :: "heap \<Rightarrow> datasets \<Rightarrow> bool" where
  "allocated h ds =
     (list_all (\<lambda>a. a < next_free h) (rollingStock ds) \<and> list_all (\<lambda>a. a < next_free h) (lines ds))"

section \<open>Properties of the classifier\<close>

lemmas parseInt_eval =
  parseInt_def strip_sign_def sign_of_def is_digit_def digits_value_def digit_val_def
  is_ws1_def is_ws2_def is_ws3_def

lemma range_test_contains: "(num_ge (Num n) lo \<and> num_le (Num n) hi) = contains (lo, hi) n"
  by (cases lo; cases hi) (auto simp: contains_def)

lemma ranges_loop_list_ex: "ranges_loop (Num n) rs = list_ex (\<lambda>r. contains r n) rs"
proof (induction rs)
  case Nil
  show ?case by simp
next
  case (Cons r rs)
  then show ?case by (cases r) (simp add: range_test_contains)
qed

lemma entries_loop_find:
  "entries_loop (Num n) T = map_option (\<lambda>e. (model e, division e)) (List.find (has_range n) T)"
  by (induction T) (simp_all add: ranges_loop_list_ex has_range_def)

lemma detect_find:
  "detectModelFromNumber s T =
     (case parseInt s of NaN \<Rightarrow> None
      | Num n \<Rightarrow> map_option (\<lambda>e. (model e, division e)) (List.find (has_range n) T))"
  by (cases "parseInt s") (simp_all add: detectModelFromNumber_def entries_loop_find)

lemma find_first: "list_all (\<lambda>x. \<not> P x) pre \<Longrightarrow> P e \<Longrightarrow> List.find P (pre @ e # post) = Some e"
  by (induction pre) simp_all

lemma find_none: "list_all (\<lambda>x. \<not> P x) T \<Longrightarrow> List.find P T = None"
  by (induction T) simp_all

text \<open>
  C1. When the car-number string parses to the number \<open>n\<close>: if \<open>e\<close> is the first entry
  of the table, in stored order, with a range \<open>[low, high]\<close> such that
  \<open>low \<le> n \<le> high\<close> (no entry before it has one), the classifier returns the model and
  division of \<open>e\<close>, whatever follows \<open>e\<close>; if no entry of the table has such a range,
  it returns \<open>null\<close>. When the string does not parse to a number, it returns \<open>null\<close>.
\<close>

theorem classify_first_match:
  "(parseInt s = Num n \<and> list_all (\<lambda>e'. \<not> has_range n e') pre \<and> has_range n e \<longrightarrow>
      detectModelFromNumber s (pre @ e # post) = Some (model e, division e)) \<and>
   (parseInt s = Num n \<and> list_all (\<lambda>e'. \<not> has_range n e') T \<longrightarrow>
      detectModelFromNumber s T = None) \<and>
   (parseInt s = NaN \<longrightarrow> detectModelFromNumber s T = None)"
  by (simp add: detect_find find_first find_none)

theorem classify_first_match_witness:
  "parseInt ''4210'' = Num 4210 \<and>
   list_all (\<lambda>e'. \<not> has_range 4210 e') [R179] \<and>
   has_range 4210 R211A \<and>
   detectModelFromNumber ''4210'' ([R179] @ R211A # [R179]) = Some (''R211A'', ''B'') \<and>
   parseInt ''9999'' = Num 9999 \<and>
   list_all (\<lambda>e'. \<not> has_range 9999 e') seed_rollingStock \<and>
   detectModelFromNumber ''9999'' seed_rollingStock = None \<and>
   parseInt ''abc'' = NaN \<and>
   detectModelFromNumber ''abc'' seed_rollingStock = None"
proof -
  have p1: "parseInt ''4210'' = Num 4210" and p2: "parseInt ''9999'' = Num 9999"
    and p3: "parseInt ''abc'' = NaN"
    by (simp_all add: parseInt_eval)
  have a: "list_all (\<lambda>e'. \<not> has_range 4210 e') [R179]" and b: "has_range 4210 R211A"
    by (simp_all add: R179_def R211A_def has_range_def contains_def)
  have c: "list_all (\<lambda>e'. \<not> has_range 9999 e') seed_rollingStock"
    by (simp add: seed_rollingStock_def has_range_def contains_def)
  from classify_first_match [of "''4210''" 4210 "[R179]" R211A "[R179]" "[]"]
       classify_first_match [of "''9999''" 9999 "[]" R211A "[]" seed_rollingStock]
       classify_first_match [of "''abc''" 0 "[]" R211A "[]" seed_rollingStock]
  show ?thesis using p1 p2 p3 a b c by (simp add: R211A_def)
qed

subsection \<open>Strings that are not numbers\<close>

lemma parseInt_NaN: "\<not> starts_with_digit (strip_sign (trimStart s)) \<Longrightarrow> parseInt s = NaN"
  by (cases "strip_sign (trimStart s)") (simp_all add: parseInt_def starts_with_digit_def)

lemma digit_not_ws: "is_digit d \<Longrightarrow> \<not> is_ws1 d \<and> \<not> is_ws2 d b \<and> \<not> is_ws3 d b c"
  by (auto simp: is_digit_def is_ws1_def is_ws2_def is_ws3_def)

lemma trimStart_digit: "is_digit d \<Longrightarrow> trimStart (d # s) = d # s"
proof (cases s)
  case Nil
  assume "is_digit d" then show ?thesis using Nil digit_not_ws by simp
next
  case (Cons b s')
  assume d: "is_digit d"
  show ?thesis
  proof (cases s')
    case Nil
    then show ?thesis using Cons d digit_not_ws by simp
  next
    case (Cons c s'')
    then show ?thesis using \<open>s = b # s'\<close> d digit_not_ws by simp
  qed
qed

lemma strip_sign_digit: "is_digit d \<Longrightarrow> strip_sign (d # s) = d # s \<and> sign_of (d # s) = 1"
  by (auto simp: strip_sign_def sign_of_def is_digit_def)

lemma takeWhile_stop:
  "list_all P xs \<Longrightarrow> (case ys of [] \<Rightarrow> True | y # _ \<Rightarrow> \<not> P y) \<Longrightarrow> takeWhile P (xs @ ys) = xs"
  by (induction xs) (auto split: list.splits)

lemma parseInt_prefix:
  assumes "is_digit d" "list_all is_digit ds" "\<not> starts_with_digit rest"
  shows "parseInt (d # ds @ rest) = Num (digits_value (d # ds))"
proof -
  have "takeWhile is_digit ((d # ds) @ rest) = d # ds"
    using assms by (intro takeWhile_stop) (auto simp: starts_with_digit_def split: list.splits)
  then show ?thesis
    using assms(1) by (simp add: parseInt_def trimStart_digit strip_sign_digit)
qed

text \<open>
  C2, as amended. A string that, once leading white space and one optional sign are
  skipped, does not start with a decimal digit (the empty string among them) is classified
  as \<open>null\<close>, whatever the table. A string that starts with decimal digits followed by
  other characters is not rejected: it is classified exactly as its leading digits are.
\<close>

theorem classify_no_leading_digit:
  "(\<not> starts_with_digit (strip_sign (trimStart s)) \<longrightarrow> detectModelFromNumber s T = None) \<and>
   (is_digit d \<and> list_all is_digit ds \<and> \<not> starts_with_digit rest \<longrightarrow>
      detectModelFromNumber (d # ds @ rest) T = detectModelFromNumber (d # ds) T)"
proof -
  have "detectModelFromNumber (d # ds @ rest) T = detectModelFromNumber (d # ds) T"
    if "is_digit d" "list_all is_digit ds" "\<not> starts_with_digit rest"
    using parseInt_prefix [OF that] parseInt_prefix [OF that(1,2), of "[]"]
    by (simp add: detectModelFromNumber_def starts_with_digit_def)
  then show ?thesis by (simp add: detectModelFromNumber_def parseInt_NaN)
qed

text \<open>
  C2, as stated, fails: \<open>4210abc\<close> is not a base-10 integer, yet the classifier returns a
  model for it (\<open>parseInt\<close> reads the leading \<open>4210\<close> and ignores the rest).
\<close>

theorem classify_non_numeric_counterexample:
  "\<not> decimal_integer ''4210abc'' \<and>
   detectModelFromNumber ''4210abc'' [R211A] = Some (''R211A'', ''B'')"
  by (simp add: decimal_integer_def detectModelFromNumber_def R211A_def parseInt_eval)

theorem classify_no_leading_digit_witness:
  "\<not> starts_with_digit (strip_sign (trimStart '''')) \<and>
   detectModelFromNumber '''' [R211A] = None \<and>
   \<not> starts_with_digit (strip_sign (trimStart '' -x1'')) \<and>
   detectModelFromNumber '' -x1'' [R211A] = None \<and>
   is_digit CHR ''4'' \<and> list_all is_digit ''210'' \<and> \<not> starts_with_digit ''abc'' \<and>
   detectModelFromNumber ''4210abc'' [R211A] = detectModelFromNumber ''4210'' [R211A]"
  using classify_no_leading_digit [of "''''" "[R211A]" "CHR ''4''" "''210''" "''abc''"]
        classify_no_leading_digit [of "'' -x1''" "[R211A]" "CHR ''4''" "''210''" "''abc''"]
  by (simp add: starts_with_digit_def strip_sign_def is_digit_def is_ws1_def is_ws2_def is_ws3_def)

subsection \<open>Order of the table\<close>

lemma contains_overlap: "contains r n \<Longrightarrow> contains r' n \<Longrightarrow> overlap r r'"
  by (auto simp: contains_def overlap_def split: prod.splits number.splits)

lemma overlap_iff: "overlap r r' \<longleftrightarrow> (\<exists>n. contains r n \<and> contains r' n)"
proof
  assume o: "overlap r r'"
  obtain x y x' y' where p: "r = (x, y)" "r' = (x', y')"
    by (cases r; cases r') auto
  with o obtain a b c d where r: "r = (Num a, Num b)" "r' = (Num c, Num d)" and le: "max a c \<le> min b d"
    by (cases x; cases y; cases x'; cases y') (auto simp: overlap_def)
  have "contains r (max a c) \<and> contains r' (max a c)"
    using r le by (auto simp: contains_def)
  then show "\<exists>n. contains r n \<and> contains r' n" ..
qed (auto intro: contains_overlap)

lemma pairwise_disjoint_append:
  "pairwise_disjoint (xs @ ys) \<Longrightarrow>
     pairwise_disjoint ys \<and> (\<forall>r\<in>set xs. \<forall>r'\<in>set ys. \<not> overlap r r')"
  by (induction xs) (auto simp: list_all_iff)

lemma disjoint_table_tail: "disjoint_table (e # T) \<Longrightarrow> disjoint_table T"
  by (simp add: disjoint_table_def pairwise_disjoint_append)

lemma disjoint_table_head:
  assumes "disjoint_table (e # T)" "has_range n e"
  shows "filter (has_range n) T = []"
proof -
  from assms(2) obtain r where r: "r \<in> set (ranges e)" "contains r n"
    by (auto simp: has_range_def list_ex_iff)
  have "\<not> has_range n e'" if "e' \<in> set T" for e'
  proof
    assume "has_range n e'"
    then obtain r' where r': "r' \<in> set (ranges e')" "contains r' n"
      by (auto simp: has_range_def list_ex_iff)
    with that have "r' \<in> set (concat (map ranges T))" by auto
    moreover have "\<forall>r\<in>set (ranges e). \<forall>r'\<in>set (concat (map ranges T)). \<not> overlap r r'"
      using assms(1) pairwise_disjoint_append [of "ranges e" "concat (map ranges T)"]
      by (simp add: disjoint_table_def)
    ultimately have "\<not> overlap r r'" using r(1) by blast
    with r(2) r'(2) show False by (simp add: contains_overlap)
  qed
  then show ?thesis by (simp add: filter_empty_conv)
qed

lemma disjoint_table_one_match: "disjoint_table T \<Longrightarrow> length (filter (has_range n) T) \<le> 1"
proof (induction T)
  case Nil
  show ?case by simp
next
  case (Cons e T)
  then show ?case
    using disjoint_table_tail [of e T] disjoint_table_head [of e T n] by simp
qed

lemma find_filter_hd: "List.find P xs = (case filter P xs of [] \<Rightarrow> None | x # _ \<Rightarrow> Some x)"
  by (induction xs) simp_all

lemma mset_eq_short: "mset xs = mset ys \<Longrightarrow> length xs \<le> 1 \<Longrightarrow> xs = ys"
proof (cases xs)
  case Nil
  assume "mset xs = mset ys" with Nil show ?thesis by simp
next
  case (Cons x xs')
  assume m: "mset xs = mset ys" and "length xs \<le> 1"
  with Cons have xs: "xs = [x]" by simp
  with m have "mset ys = {#x#}" by simp
  then have "ys = [x]" by (simp add: mset_single_iff_right)
  with xs show ?thesis by simp
qed

lemma find_perm_unique:
  assumes "mset T = mset T'" "length (filter P T) \<le> 1"
  shows "List.find P T = List.find P T'"
proof -
  have "mset (filter P T) = mset (filter P T')" using assms(1) by simp
  then have "filter P T = filter P T'" using assms(2) by (rule mset_eq_short)
  then show ?thesis by (simp add: find_filter_hd)
qed

text \<open>
  C9. For two tables that are permutations of one another, the ranges of the first being
  pairwise disjoint, the classifier returns the same result on both, for every string.
  When the ranges of two entries both contain the number, the entry that stands first in
  the table is the result: swapping the two entries swaps the result.
\<close>

theorem classify_order_independent:
  "(mset T = mset T' \<and> disjoint_table T \<longrightarrow>
      detectModelFromNumber s T = detectModelFromNumber s T') \<and>
   (parseInt s = Num n \<and> has_range n e1 \<and> has_range n e2 \<longrightarrow>
      detectModelFromNumber s (e1 # e2 # rest) = Some (model e1, division e1) \<and>
      detectModelFromNumber s (e2 # e1 # rest) = Some (model e2, division e2))"
proof -
  have "detectModelFromNumber s T = detectModelFromNumber s T'"
    if "mset T = mset T'" "disjoint_table T"
    using find_perm_unique [OF that(1) disjoint_table_one_match [OF that(2)]]
    by (simp add: detect_find split: number.splits)
  then show ?thesis by (auto simp: detect_find)
qed

theorem classify_order_independent_witness:
  "mset seed_rollingStock = mset (rev seed_rollingStock) \<and>
   disjoint_table seed_rollingStock \<and>
   detectModelFromNumber ''4210'' seed_rollingStock = Some (''R211A'', ''B'') \<and>
   detectModelFromNumber ''4210'' (rev seed_rollingStock) = Some (''R211A'', ''B'') \<and>
   parseInt ''4050'' = Num 4050 \<and> has_range 4050 R211A \<and> has_range 4050 R211T \<and>
   detectModelFromNumber ''4050'' [R211A, R211T] = Some (''R211A'', ''B'') \<and>
   detectModelFromNumber ''4050'' [R211T, R211A] = Some (''R211T'', ''B'')"
proof -
  have d: "disjoint_table seed_rollingStock"
    by (simp add: disjoint_table_def seed_rollingStock_def overlap_def)
  have v: "detectModelFromNumber ''4210'' seed_rollingStock = Some (''R211A'', ''B'')"
    by (simp add: detectModelFromNumber_def seed_rollingStock_def parseInt_eval)
  have p: "parseInt ''4050'' = Num 4050" by (simp add: parseInt_eval)
  have h: "has_range 4050 R211A" "has_range 4050 R211T"
    by (simp_all add: has_range_def contains_def R211A_def R211T_def)
  from classify_order_independent
         [of seed_rollingStock "rev seed_rollingStock" "''4210''" 4050 R211A R211T "[]"]
       classify_order_independent
         [of seed_rollingStock "rev seed_rollingStock" "''4050''" 4050 R211A R211T "[]"]
  show ?thesis using d v p h by (simp add: R211A_def R211T_def)
qed

subsection \<open>Inverted ranges\<close>

lemma inverted_not_contains: "inverted r \<Longrightarrow> \<not> contains r n"
  by (auto simp: inverted_def contains_def split: prod.splits number.splits)

lemma has_range_drop_inverted: "has_range n (drop_inverted e) = has_range n e"
  unfolding has_range_def drop_inverted_def list_ex_iff
  using inverted_not_contains by fastforce

lemma find_map_same:
  "(\<And>x. P (f x) = P x) \<Longrightarrow> map_option g (List.find P (map f xs)) = map_option (g \<circ> f) (List.find P xs)"
  by (induction xs) simp_all

lemma find_skip: "\<not> P e \<Longrightarrow> List.find P (pre @ e # post) = List.find P (pre @ post)"
  by (induction pre) simp_all

lemma find_result: "List.find P xs = None \<or> list_ex (\<lambda>x. List.find P xs = Some x) xs"
  by (induction xs) (auto simp: list_ex_iff)

text \<open>
  C10. The classifier is a total function of its two arguments: its loops are structural
  recursions over the table and over each entry's ranges, no operation in them can fail
  on a table whose ranges are pairs of numbers, and its result is \<open>null\<close> or the model
  and division of an entry of the table. A range \<open>[lo, hi]\<close> with \<open>lo > hi\<close> fails the
  test \<open>n >= lo && n <= hi\<close> for every number \<open>n\<close>; leaving such ranges out of every
  entry does not change any classification, and an entry all of whose ranges are
  inverted can be removed from the table without changing any classification.
\<close>

theorem classify_skips_inverted:
  "(detectModelFromNumber s T = None \<or>
      list_ex (\<lambda>e. detectModelFromNumber s T = Some (model e, division e)) T) \<and>
   (hi < lo \<longrightarrow> \<not> (num_ge n (Num lo) \<and> num_le n (Num hi))) \<and>
   detectModelFromNumber s (map drop_inverted T) = detectModelFromNumber s T \<and>
   (list_all inverted (ranges e) \<longrightarrow>
      detectModelFromNumber s (pre @ e # post) = detectModelFromNumber s (pre @ post))"
proof -
  have t: "detectModelFromNumber s T = None \<or>
      list_ex (\<lambda>e. detectModelFromNumber s T = Some (model e, division e)) T"
  proof (cases "parseInt s")
    case NaN
    then show ?thesis by (simp add: detect_find)
  next
    case (Num m)
    from find_result [of "has_range m" T] show ?thesis
    proof
      assume "List.find (has_range m) T = None"
      with Num show ?thesis by (simp add: detect_find)
    next
      assume "list_ex (\<lambda>x. List.find (has_range m) T = Some x) T"
      then obtain x where "x \<in> set T" "List.find (has_range m) T = Some x"
        by (auto simp: list_ex_iff)
      with Num show ?thesis by (auto simp: detect_find list_ex_iff)
    qed
  qed
  have a: "hi < lo \<longrightarrow> \<not> (num_ge n (Num lo) \<and> num_le n (Num hi))"
    by (cases n) auto
  have "map_option (\<lambda>e. (model e, division e)) (List.find (has_range m) (map drop_inverted T))
        = map_option (\<lambda>e. (model e, division e)) (List.find (has_range m) T)" for m
    using find_map_same [where P = "has_range m" and f = drop_inverted
                           and g = "\<lambda>e. (model e, division e)" and xs = T,
                         OF has_range_drop_inverted]
    by (simp add: comp_def drop_inverted_def)
  then have b: "detectModelFromNumber s (map drop_inverted T) = detectModelFromNumber s T"
    by (simp add: detect_find split: number.splits)
  have "\<not> has_range m e" if "list_all inverted (ranges e)" for m
    using that by (auto simp: has_range_def list_ex_iff list_all_iff inverted_not_contains)
  then have c: "list_all inverted (ranges e) \<longrightarrow>
      detectModelFromNumber s (pre @ e # post) = detectModelFromNumber s (pre @ post)"
    by (simp add: detect_find find_skip split: number.splits)
  from t a b c show ?thesis by simp
qed

theorem classify_skips_inverted_witness:
  "(4000 :: int) < 4399 \<and>
   \<not> (num_ge (Num 4210) (Num 4399) \<and> num_le (Num 4210) (Num 4000)) \<and>
   detectModelFromNumber ''4210'' (map drop_inverted [backwards, R211A])
     = detectModelFromNumber ''4210'' [backwards, R211A] \<and>
   list_all inverted (ranges backwards) \<and>
   detectModelFromNumber ''4210'' ([] @ backwards # [R211A]) = detectModelFromNumber ''4210'' ([] @ [R211A]) \<and>
   detectModelFromNumber ''4210'' [backwards, R211A] = Some (''R211A'', ''B'')"
proof -
  have i: "list_all inverted (ranges backwards)"
    by (simp add: backwards_def inverted_def)
  have v: "detectModelFromNumber ''4210'' [backwards, R211A] = Some (''R211A'', ''B'')"
    by (simp add: detectModelFromNumber_def backwards_def R211A_def parseInt_eval)
  from classify_skips_inverted [of "''4210''" "[backwards, R211A]" 4000 4399 "Num 4210" backwards "[]" "[R211A]"]
  show ?thesis using i v by simp
qed

section \<open>Properties of the ride ledger\<close>

lemmas uri_eval =
  decodeURIComponent_def encodeURIComponent_def uri_escape_all_def uri_escape_def unreserved_def
  hex_digit_def hex_val_def byte_def between_def

lemmas cookie_eval =
  find_cookie_def second_part_def startsWith_def COOKIE_NAME_def trim_def trimEnd_def
  is_ws1_def is_ws2_def is_ws3_def

subsection \<open>Escaping and unescaping\<close>

lemma hex_table: "list_all (\<lambda>n. hex_val (hex_digit n) = Some n) [0..<16]"
  by code_simp

lemma hex_val_hex_digit: "n < 16 \<Longrightarrow> hex_val (hex_digit n) = Some n"
  using hex_table by (simp add: list_all_iff)

lemma hex_safe_table: "list_all (\<lambda>n. cookie_safe (hex_digit n)) [0..<16]"
  by code_simp

lemma hex_digit_safe: "n < 16 \<Longrightarrow> cookie_safe (hex_digit n)"
  using hex_safe_table by (simp add: list_all_iff)

lemma byte_split: "byte c div 16 < 16 \<and> byte c mod 16 < 16"
proof -
  have "byte c < 256" by (simp add: byte_def)
  then show ?thesis by simp
qed

lemma unescape_escape_char:
  "uri_unescape (uri_escape c @ s) = map_option ((#) c) (uri_unescape s)"
proof (cases "unreserved c")
  case True
  then have "c \<noteq> CHR ''%''" by (auto simp: unreserved_def)
  with True show ?thesis by (simp add: uri_escape_def)
next
  case False
  have "char_of (16 * (byte c div 16) + byte c mod 16) = c"
    by (simp add: byte_def)
  with False show ?thesis
    using byte_split [of c] by (simp add: uri_escape_def hex_val_hex_digit)
qed

lemma unescape_escape: "uri_unescape (uri_escape_all s) = Some s"
  by (induction s) (simp_all add: uri_escape_all_def unescape_escape_char)

lemma decode_encode:
  "utf8_valid s \<Longrightarrow> encodeURIComponent s = Some (uri_escape_all s) \<and>
                     decodeURIComponent (uri_escape_all s) = Some s"
  by (simp add: encodeURIComponent_def decodeURIComponent_def unescape_escape)

lemma escape_safe: "list_all cookie_safe (uri_escape_all s)"
proof (induction s)
  case Nil
  show ?case by (simp add: uri_escape_all_def)
next
  case (Cons c s)
  have "list_all cookie_safe (uri_escape c)"
    using byte_split [of c] by (simp add: uri_escape_def hex_digit_safe) (simp add: cookie_safe_def)
  with Cons show ?case by (simp add: uri_escape_all_def)
qed

lemma cookie_safe_plain:
  "cookie_safe c \<Longrightarrow> c \<noteq> CHR '';'' \<and> c \<noteq> CHR ''='' \<and> \<not> is_wsp c \<and> \<not> is_ws1 c \<and> byte c < 0x80"
  by (auto simp: cookie_safe_def unreserved_def is_wsp_def is_ws1_def byte_def)

subsection \<open>Trimming and splitting\<close>

lemma trimStart_ws1: "is_ws1 a \<Longrightarrow> trimStart (a # s) = trimStart s"
proof (cases s)
  case Nil
  assume "is_ws1 a" with Nil show ?thesis by simp
next
  case (Cons b s')
  assume "is_ws1 a" with Cons show ?thesis by (cases s') simp_all
qed

lemma trimStart_plain:
  assumes "\<not> is_ws1 a" "byte a < 0x80"
  shows "trimStart (a # s) = a # s"
proof -
  have n: "\<not> is_ws2 a b \<and> \<not> is_ws3 a b c" for b c
    using assms(2) by (auto simp: is_ws2_def is_ws3_def byte_def)
  show ?thesis
  proof (cases s)
    case Nil
    with assms(1) show ?thesis by simp
  next
    case (Cons b s')
    with assms(1) n show ?thesis by (cases s') simp_all
  qed
qed

lemma trimStart_rev_plain:
  assumes "\<not> is_ws1 c" "byte c < 0x80"
  shows "trimStart_rev (c # s) = c # s"
proof -
  have n: "\<not> is_ws2 b c \<and> \<not> is_ws3 a b c" for a b
    using assms(2) by (auto simp: is_ws2_def is_ws3_def byte_def)
  show ?thesis
  proof (cases s)
    case Nil
    with assms(1) show ?thesis by simp
  next
    case (Cons b s')
    with assms(1) n show ?thesis by (cases s') simp_all
  qed
qed

lemma trim_plain:
  assumes "s \<noteq> []" "\<not> is_ws1 (hd s)" "byte (hd s) < 0x80" "\<not> is_ws1 (last s)" "byte (last s) < 0x80"
  shows "trim s = s"
proof -
  from assms(1) obtain a s' where s: "s = a # s'" by (cases s) auto
  from assms(1) obtain c r where r: "rev s = c # r" by (cases "rev s") auto
  then have c: "c = last s" using assms(1) by (metis last_rev list.sel(1) rev_rev_ident hd_rev)
  have "trimStart s = s" using s assms(2,3) by (simp add: trimStart_plain)
  moreover have "trimStart_rev (c # r) = c # r"
    using c assms(4,5) by (simp add: trimStart_rev_plain)
  then have "trimStart_rev (rev s) = rev s" by (simp only: r)
  ultimately show ?thesis by (simp add: trim_def trimEnd_def)
qed

lemma trim_space: "trim (CHR '' '' # s) = trim s"
  by (simp add: trim_def trimStart_ws1 is_ws1_def)

lemma split_on_none: "sep \<notin> set p \<Longrightarrow> split_on sep p = [p]"
  by (induction p) auto

lemma split_on_first: "sep \<notin> set p \<Longrightarrow> split_on sep (p @ sep # s) = p # split_on sep s"
  by (induction p) auto

lemma split_join:
  "list_all (\<lambda>p. CHR '';'' \<notin> set p) (p # ps) \<Longrightarrow>
     split_on CHR '';'' (join_cookies (p # ps)) = p # map ((#) CHR '' '') ps"
proof (induction ps arbitrary: p)
  case Nil
  then show ?case by (simp add: split_on_none)
next
  case (Cons q ps)
  from Cons.prems have p: "CHR '';'' \<notin> set p" and rest: "list_all (\<lambda>p. CHR '';'' \<notin> set p) (q # ps)"
    by simp_all
  have "split_on CHR '';'' (join_cookies (p # q # ps))
          = p # split_on CHR '';'' (CHR '' '' # join_cookies (q # ps))"
    using split_on_first [OF p] by simp
  also have "split_on CHR '';'' (CHR '' '' # join_cookies (q # ps))
          = (CHR '' '' # q) # map ((#) CHR '' '') ps"
    using Cons.IH [OF rest] by simp
  finally show ?case by simp
qed

lemma trimmed_pieces:
  assumes "list_all (\<lambda>p. CHR '';'' \<notin> set p) ps" "ps \<noteq> []"
  shows "map trim (split_on CHR '';'' (join_cookies ps)) = map trim ps"
proof -
  from assms(2) obtain p ps' where ps: "ps = p # ps'" by (cases ps) auto
  show ?thesis using assms(1) unfolding ps
    by (simp add: split_join trim_space comp_def del: join_cookies.simps)
qed

subsection \<open>The cookie written is the cookie found\<close>

lemma strip_wsp_none: "list_all (\<lambda>c. \<not> is_wsp c) s \<Longrightarrow> strip_wsp s = s"
proof -
  assume a: "list_all (\<lambda>c. \<not> is_wsp c) s"
  have d: "dropWhile is_wsp t = t" if "list_all (\<lambda>c. \<not> is_wsp c) t" for t
    using that by (cases t) simp_all
  have "list_all (\<lambda>c. \<not> is_wsp c) (rev s)"
    using a by (simp add: list_all_iff)
  then show ?thesis using a by (simp add: strip_wsp_def d)
qed

lemma set_rides_cookie:
  assumes "list_all cookie_safe V"
  shows "document_cookie_set (COOKIE_NAME @ ''='' @ V @ ''; Max-Age=34560000; Path=/'') jar
           = (if 4096 < length COOKIE_NAME + length V then jar else put_cookie COOKIE_NAME V jar)"
proof -
  have V: "\<forall>c\<in>set V. c \<noteq> CHR '';'' \<and> c \<noteq> CHR ''='' \<and> \<not> is_wsp c"
    using assms(1) cookie_safe_plain by (auto simp: list_all_iff)
  have pair: "takeWhile (\<lambda>c. c \<noteq> CHR '';'') (COOKIE_NAME @ ''='' @ V @ ''; Max-Age=34560000; Path=/'')
                = COOKIE_NAME @ ''='' @ V"
  proof -
    have "takeWhile (\<lambda>c. c \<noteq> CHR '';'') ((COOKIE_NAME @ ''='' @ V) @ ''; Max-Age=34560000; Path=/'')
            = (COOKIE_NAME @ ''='' @ V) @ takeWhile (\<lambda>c. c \<noteq> CHR '';'') ''; Max-Age=34560000; Path=/''"
      using V by (intro takeWhile_append2) (auto simp: COOKIE_NAME_def)
    then show ?thesis by simp
  qed
  have name: "takeWhile (\<lambda>c. c \<noteq> CHR ''='') (COOKIE_NAME @ ''='' @ V) = COOKIE_NAME"
    by (simp add: COOKIE_NAME_def)
  have val: "drop 1 (dropWhile (\<lambda>c. c \<noteq> CHR ''='') (COOKIE_NAME @ ''='' @ V)) = V"
    by (simp add: COOKIE_NAME_def)
  have sn: "strip_wsp COOKIE_NAME = COOKIE_NAME"
    by (rule strip_wsp_none) (simp add: COOKIE_NAME_def is_wsp_def)
  have sv: "strip_wsp V = V"
    using V by (intro strip_wsp_none) (simp add: list_all_iff)
  have ne: "COOKIE_NAME \<noteq> []" by (simp add: COOKIE_NAME_def)
  show ?thesis
    unfolding document_cookie_set_def pair Let_def name val sn sv put_cookie_def
    using ne by simp
qed

lemma write_rides:
  "writeRidesToCookie B R jar =
     (if \<not> utf8_valid (JSON_stringify B (JArr R))
        \<or> 4096 < length COOKIE_NAME + length (uri_escape_all (JSON_stringify B (JArr R)))
      then jar
      else put_cookie COOKIE_NAME (uri_escape_all (JSON_stringify B (JArr R))) jar)"
  using set_rides_cookie [OF escape_safe]
  by (simp add: writeRidesToCookie_def writeRides_try_def encodeURIComponent_def)

lemma put_cookie_mem:
  "(k, v) \<in> set (put_cookie name V jar) \<Longrightarrow> (k = name \<and> v = V) \<or> ((k, v) \<in> set jar \<and> k \<noteq> name)"
  by (auto simp: put_cookie_def list_ex_iff split: if_splits)

lemma put_cookie_has: "(name, V) \<in> set (put_cookie name V jar)"
  by (force simp: put_cookie_def list_ex_iff)

lemma rides_piece_trim:
  assumes "list_all cookie_safe V"
  shows "trim (COOKIE_NAME @ ''='' @ V) = COOKIE_NAME @ ''='' @ V"
proof (rule trim_plain)
  show "COOKIE_NAME @ ''='' @ V \<noteq> []" by simp
  show "\<not> is_ws1 (hd (COOKIE_NAME @ ''='' @ V))" "byte (hd (COOKIE_NAME @ ''='' @ V)) < 0x80"
    by (simp_all add: COOKIE_NAME_def is_ws1_def byte_def)
  have "cookie_safe (last V)" if "V \<noteq> []"
    using that assms by (simp add: list_all_iff)
  then have l: "\<not> is_ws1 (last (''='' @ V)) \<and> byte (last (''='' @ V)) < 0x80"
    using cookie_safe_plain [of "last V"] by (cases "V = []") (simp_all add: is_ws1_def byte_def)
  then show "\<not> is_ws1 (last (COOKIE_NAME @ ''='' @ V))" "byte (last (COOKIE_NAME @ ''='' @ V)) < 0x80"
    by simp_all
qed

lemma find_in_map:
  assumes "y \<in> set xs" "P (g y)" "\<And>x. x \<in> set xs \<Longrightarrow> P (g x) \<Longrightarrow> g x = g y"
  shows "List.find P (map g xs) = Some (g y)"
  using assms
proof (induction xs)
  case Nil
  then show ?case by simp
next
  case (Cons x xs)
  show ?case
  proof (cases "P (g x)")
    case True
    then have "g x = g y" using Cons.prems(3) by simp
    with True show ?thesis by simp
  next
    case False
    with Cons.prems(1,2) have "y \<in> set xs" by auto
    then have "List.find P (map g xs) = Some (g y)"
      using Cons.prems(2,3) by (intro Cons.IH) simp_all
    with False show ?thesis by simp
  qed
qed

lemma find_written_cookie:
  assumes "list_all cookie_safe V" "foreign_ok jar"
  shows "find_cookie (document_cookie_get (put_cookie COOKIE_NAME V jar)) = Some (COOKIE_NAME @ ''='' @ V)"
proof -
  let ?jar = "put_cookie COOKIE_NAME V jar"
  let ?piece = "\<lambda>(k, v). k @ ''='' @ v"
  let ?g = "\<lambda>kv. trim (?piece kv)"
  let ?P = "\<lambda>c. startsWith c (COOKIE_NAME @ ''='')"
  have V: "CHR '';'' \<notin> set V"
    using assms(1) cookie_safe_plain by (auto simp: list_all_iff)
  have foreign: "CHR '';'' \<notin> set (k @ v) \<and> \<not> ?P (trim (k @ ''='' @ v))"
    if "(k, v) \<in> set jar" "k \<noteq> COOKIE_NAME" for k v
    using that assms(2) by (auto simp: foreign_ok_def list_all_iff)
  have own: "CHR '';'' \<notin> set (COOKIE_NAME @ ''='' @ V)"
    using V by (simp add: COOKIE_NAME_def)
  have semi: "CHR '';'' \<notin> set (?piece kv)" if "kv \<in> set ?jar" for kv
  proof -
    obtain k v where kv: "kv = (k, v)" by (cases kv)
    from put_cookie_mem [of k v COOKIE_NAME V jar] that kv
    have "(k = COOKIE_NAME \<and> v = V) \<or> ((k, v) \<in> set jar \<and> k \<noteq> COOKIE_NAME)" by simp
    then show ?thesis
    proof
      assume "k = COOKIE_NAME \<and> v = V"
      with own kv show ?thesis by simp
    next
      assume "(k, v) \<in> set jar \<and> k \<noteq> COOKIE_NAME"
      with foreign [of k v] kv show ?thesis by simp
    qed
  qed
  then have nosemi: "list_all (\<lambda>p. CHR '';'' \<notin> set p) (map ?piece ?jar)"
    by (simp add: list_all_iff)
  have has: "(COOKIE_NAME, V) \<in> set ?jar" by (rule put_cookie_has)
  then have ne: "map ?piece ?jar \<noteq> []" by auto
  have tr: "?g (COOKIE_NAME, V) = COOKIE_NAME @ ''='' @ V"
    using rides_piece_trim [OF assms(1)] by simp
  have mine: "?P (?g (COOKIE_NAME, V))"
    unfolding tr by (simp add: startsWith_def)
  have uniq: "?g kv = ?g (COOKIE_NAME, V)" if "kv \<in> set ?jar" "?P (?g kv)" for kv
  proof -
    obtain k v where kv: "kv = (k, v)" by (cases kv)
    from put_cookie_mem [of k v COOKIE_NAME V jar] that(1) kv
    have "(k = COOKIE_NAME \<and> v = V) \<or> ((k, v) \<in> set jar \<and> k \<noteq> COOKIE_NAME)" by simp
    then show ?thesis
    proof
      assume "k = COOKIE_NAME \<and> v = V"
      with kv show ?thesis by simp
    next
      assume "(k, v) \<in> set jar \<and> k \<noteq> COOKIE_NAME"
      with foreign [of k v] that(2) kv show ?thesis by simp
    qed
  qed
  have "find_cookie (document_cookie_get ?jar) = List.find ?P (map trim (map ?piece ?jar))"
    using trimmed_pieces [OF nosemi ne] by (simp add: find_cookie_def document_cookie_get_def)
  also have "map trim (map ?piece ?jar) = map ?g ?jar" by simp
  also have "List.find ?P (map ?g ?jar) = Some (?g (COOKIE_NAME, V))"
    using has mine uniq by (rule find_in_map)
  finally show ?thesis using tr by simp
qed

lemma second_part_written:
  assumes "list_all cookie_safe V"
  shows "second_part (COOKIE_NAME @ ''='' @ V) = V"
proof -
  have "CHR ''='' \<notin> set V"
    using assms cookie_safe_plain by (auto simp: list_all_iff)
  then have "split_on CHR ''='' (COOKIE_NAME @ CHR ''='' # V) = [COOKIE_NAME, V]"
    using split_on_first [of "CHR ''=''" COOKIE_NAME V] by (simp add: split_on_none COOKIE_NAME_def)
  then show ?thesis by (simp add: second_part_def)
qed

lemma cookie_roundtrip:
  assumes "JSON_parse B (JSON_stringify B (JArr R)) = Inr (JArr R)"
      and "utf8_valid (JSON_stringify B (JArr R))"
      and "length COOKIE_NAME + length (uri_escape_all (JSON_stringify B (JArr R))) \<le> 4096"
      and "foreign_ok jar"
  shows "readRidesFromCookie B (document_cookie_get (writeRidesToCookie B R jar)) = R"
proof -
  let ?js = "JSON_stringify B (JArr R)"
  let ?V = "uri_escape_all ?js"
  have safe: "list_all cookie_safe ?V" by (rule escape_safe)
  have w: "writeRidesToCookie B R jar = put_cookie COOKIE_NAME ?V jar"
    using assms(2,3) by (simp add: write_rides)
  show ?thesis
    unfolding w readRidesFromCookie_def readRides_try_def
    using find_written_cookie [OF safe assms(4)] second_part_written [OF safe]
          decode_encode [OF assms(2)] assms(1)
    by simp
qed

text \<open>
  C4. Round trip: when the engine's \<open>JSON.parse\<close> gives back the array \<open>R\<close> from the text
  \<open>JSON.stringify\<close> makes of it, that text is a well-formed string, the cookie is within
  the browser's size limit (name and value together at most 4096 bytes) and no other
  cookie of the store reads as the rides cookie, then writing \<open>R\<close> and reading the
  cookie back returns \<open>R\<close>. Beyond the size limit the browser drops the assignment and
  the store is left as it was.
\<close>

theorem rides_cookie_roundtrip:
  "(JSON_parse B (JSON_stringify B (JArr R)) = Inr (JArr R) \<and>
    utf8_valid (JSON_stringify B (JArr R)) \<and>
    length COOKIE_NAME + length (uri_escape_all (JSON_stringify B (JArr R))) \<le> 4096 \<and>
    foreign_ok jar \<longrightarrow>
      readRidesFromCookie B (document_cookie_get (writeRidesToCookie B R jar)) = R) \<and>
   (4096 < length COOKIE_NAME + length (uri_escape_all (JSON_stringify B (JArr R))) \<longrightarrow>
      writeRidesToCookie B R jar = jar)"
  using cookie_roundtrip [of B R jar] by (simp add: write_rides)

theorem rides_cookie_roundtrip_witness:
  "JSON_parse example_builtins (JSON_stringify example_builtins (JArr [ride1, ride2])) = Inr (JArr [ride1, ride2]) \<and>
   utf8_valid (JSON_stringify example_builtins (JArr [ride1, ride2])) \<and>
   length COOKIE_NAME + length (uri_escape_all (JSON_stringify example_builtins (JArr [ride1, ride2]))) \<le> 4096 \<and>
   foreign_ok [(''theme'', ''dark'')] \<and>
   readRidesFromCookie example_builtins
     (document_cookie_get (writeRidesToCookie example_builtins [ride1, ride2] [(''theme'', ''dark'')]))
     = [ride1, ride2] \<and>
   4096 < length COOKIE_NAME + length (uri_escape_all (JSON_stringify long_builtins (JArr []))) \<and>
   writeRidesToCookie long_builtins [] [(''theme'', ''dark'')] = [(''theme'', ''dark'')]"
proof -
  have s: \<open>JSON_stringify example_builtins (JArr [ride1, ride2])
           = ''[{"id":"r1","trainNumber":"4210","line":"A"},{"id":"r2","trainNumber":"8778","line":"Q"}]''\<close>
    by (simp add: example_builtins_def example_table_def ride1_def ride2_def)
  have p: "JSON_parse example_builtins (JSON_stringify example_builtins (JArr [ride1, ride2])) = Inr (JArr [ride1, ride2])"
    unfolding s by (simp add: example_builtins_def example_table_def)
  have u: "utf8_valid (JSON_stringify example_builtins (JArr [ride1, ride2]))"
    unfolding s by (simp add: byte_def)
  have l: "length COOKIE_NAME + length (uri_escape_all (JSON_stringify example_builtins (JArr [ride1, ride2]))) \<le> 4096"
    unfolding s by (simp add: COOKIE_NAME_def uri_escape_all_def uri_escape_def unreserved_def)
  have f: "foreign_ok [(''theme'', ''dark'')]"
    by (simp add: foreign_ok_def cookie_eval)
  have g: "4096 < length COOKIE_NAME + length (uri_escape_all (JSON_stringify long_builtins (JArr [])))"
    by (simp add: long_builtins_def COOKIE_NAME_def uri_escape_all_def uri_escape_def unreserved_def
        length_concat comp_def sum_list_replicate)
  from rides_cookie_roundtrip [of example_builtins "[ride1, ride2]" "[(''theme'', ''dark'')]"]
       rides_cookie_roundtrip [of long_builtins "[]" "[(''theme'', ''dark'')]"]
  show ?thesis using p u l f g by simp
qed

subsection \<open>Reading a cookie that is not a ledger\<close>

lemma isArray_elements: "isArray v \<Longrightarrow> v = JArr (elements v)"
  by (cases v) simp_all

text \<open>
  C5. \<open>readRidesFromCookie\<close> returns the empty array when no cookie of the name is
  found, when the value found does not decode, when the decoded text does not parse, and
  when the parsed value is not an array. It never raises: every \<open>throw\<close> of its body is
  caught, and on every cookie string its result is the empty array or the array that the
  value of the cookie parses to.
\<close>

theorem readRides_empty_cases:
  "(find_cookie c = None \<longrightarrow> readRidesFromCookie B c = []) \<and>
   (find_cookie c = Some m \<and> decodeURIComponent (second_part m) = None \<longrightarrow>
      readRidesFromCookie B c = []) \<and>
   (find_cookie c = Some m \<and> decodeURIComponent (second_part m) = Some raw \<and>
    JSON_parse B raw = Inl msg \<longrightarrow> readRidesFromCookie B c = []) \<and>
   (find_cookie c = Some m \<and> decodeURIComponent (second_part m) = Some raw \<and>
    JSON_parse B raw = Inr v \<and> \<not> isArray v \<longrightarrow> readRidesFromCookie B c = []) \<and>
   (readRidesFromCookie B c = [] \<or>
    (\<exists>m' raw'. find_cookie c = Some m' \<and> decodeURIComponent (second_part m') = Some raw' \<and>
       JSON_parse B raw' = Inr (JArr (readRidesFromCookie B c))))"
proof -
  have "readRidesFromCookie B c = [] \<or>
    (\<exists>m' raw'. find_cookie c = Some m' \<and> decodeURIComponent (second_part m') = Some raw' \<and>
       JSON_parse B raw' = Inr (JArr (readRidesFromCookie B c)))"
    using isArray_elements
    by (auto simp: readRidesFromCookie_def readRides_try_def split: option.splits sum.splits)
  then show ?thesis
    by (simp add: readRidesFromCookie_def readRides_try_def)
qed

theorem readRides_empty_cases_witness:
  "find_cookie ''theme=dark'' = None \<and>
   readRidesFromCookie example_builtins ''theme=dark'' = [] \<and>
   find_cookie ''theme=dark; nyc_subway_rides=%5B%5'' = Some ''nyc_subway_rides=%5B%5'' \<and>
   decodeURIComponent (second_part ''nyc_subway_rides=%5B%5'') = None \<and>
   readRidesFromCookie example_builtins ''theme=dark; nyc_subway_rides=%5B%5'' = [] \<and>
   find_cookie ''nyc_subway_rides=%7Boops'' = Some ''nyc_subway_rides=%7Boops'' \<and>
   decodeURIComponent (second_part ''nyc_subway_rides=%7Boops'') = Some ''{oops'' \<and>
   JSON_parse example_builtins ''{oops'' = Inl ''Unexpected token'' \<and>
   readRidesFromCookie example_builtins ''nyc_subway_rides=%7Boops'' = [] \<and>
   find_cookie ''nyc_subway_rides=%7B%7D'' = Some ''nyc_subway_rides=%7B%7D'' \<and>
   decodeURIComponent (second_part ''nyc_subway_rides=%7B%7D'') = Some ''{}'' \<and>
   JSON_parse example_builtins ''{}'' = Inr (JObj []) \<and> \<not> isArray (JObj []) \<and>
   readRidesFromCookie example_builtins ''nyc_subway_rides=%7B%7D'' = []"
proof -
  have f1: "find_cookie ''theme=dark'' = None"
    by (simp add: cookie_eval)
  have f2: "find_cookie ''theme=dark; nyc_subway_rides=%5B%5'' = Some ''nyc_subway_rides=%5B%5''"
    by (simp add: cookie_eval)
  have d2: "decodeURIComponent (second_part ''nyc_subway_rides=%5B%5'') = None"
    by (simp add: second_part_def uri_eval)
  have f3: "find_cookie ''nyc_subway_rides=%7Boops'' = Some ''nyc_subway_rides=%7Boops''"
    by (simp add: cookie_eval)
  have d3: "decodeURIComponent (second_part ''nyc_subway_rides=%7Boops'') = Some ''{oops''"
    by code_simp
  have p3: "JSON_parse example_builtins ''{oops'' = Inl ''Unexpected token''"
    by (simp add: example_builtins_def example_table_def)
  have f4: "find_cookie ''nyc_subway_rides=%7B%7D'' = Some ''nyc_subway_rides=%7B%7D''"
    by (simp add: cookie_eval)
  have d4: "decodeURIComponent (second_part ''nyc_subway_rides=%7B%7D'') = Some ''{}''"
    by code_simp
  have p4: "JSON_parse example_builtins ''{}'' = Inr (JObj [])"
    by (simp add: example_builtins_def example_table_def)
  from readRides_empty_cases [of "''theme=dark''" example_builtins]
       readRides_empty_cases [of "''theme=dark; nyc_subway_rides=%5B%5''" example_builtins
                                 "''nyc_subway_rides=%5B%5''"]
       readRides_empty_cases [of "''nyc_subway_rides=%7Boops''" example_builtins
                                 "''nyc_subway_rides=%7Boops''" "''{oops''" "''Unexpected token''"]
       readRides_empty_cases [of "''nyc_subway_rides=%7B%7D''" example_builtins
                                 "''nyc_subway_rides=%7B%7D''" "''{}''" "''''" "JObj []"]
  show ?thesis using f1 f2 d2 f3 d3 p3 f4 d4 p4 by simp
qed

subsection \<open>Importing rides\<close>

lemma length_uri_escape_all: "length s \<le> length (uri_escape_all s)"
  by (induction s) (simp_all add: uri_escape_all_def uri_escape_def)

lemma hundred_text_length: "length hundred_text = 4401"
  by (simp add: hundred_text_def ride_text_def length_concat sum_list_replicate comp_def)

lemma hundred_rides_length: "length hundred_rides = 100"
  by (simp add: hundred_rides_def)

lemma hundred_stringify: "JSON_stringify bulk_builtins (JArr hundred_rides) = hundred_text"
  by (simp add: bulk_builtins_def)

lemma hundred_parse: "JSON_parse bulk_builtins hundred_text = Inr (JArr hundred_rides)"
  by (simp add: bulk_builtins_def)

lemma hundred_oversize:
  "4096 < length COOKIE_NAME + length (uri_escape_all (JSON_stringify bulk_builtins (JArr hundred_rides)))"
  using length_uri_escape_all [of hundred_text]
  by (simp add: hundred_stringify hundred_text_length)

lemma bulk_stringify_short:
  "length R \<noteq> 100 \<Longrightarrow> JSON_stringify bulk_builtins (JArr R) = JSON_stringify example_builtins (JArr R)"
  using hundred_rides_length by (auto simp: bulk_builtins_def)

lemma bulk_parse_short:
  "length s \<noteq> 4401 \<Longrightarrow> JSON_parse bulk_builtins s = JSON_parse example_builtins s"
  using hundred_text_length by (auto simp: bulk_builtins_def)

lemma import_array:
  "JSON_parse B txt = Inr (JArr xs) \<Longrightarrow>
     importRides B (Some txt) st
       = \<lparr>rides = xs, cookies = cookies st, alerts = alerts st @ [''Imported rides into cookie.'']\<rparr>"
  by (simp add: importRides_def importRides_try_def alert_def setRides_def)

lemma ledger1_read_back:
  "readRidesFromCookie bulk_builtins (document_cookie_get (cookies ledger1)) = [ride1, ride2]"
proof -
  have s: \<open>JSON_stringify bulk_builtins (JArr [ride1, ride2])
           = ''[{"id":"r1","trainNumber":"4210","line":"A"},{"id":"r2","trainNumber":"8778","line":"Q"}]''\<close>
    by (simp add: bulk_stringify_short)
       (simp add: example_builtins_def example_table_def ride1_def ride2_def)
  have p: "JSON_parse bulk_builtins (JSON_stringify bulk_builtins (JArr [ride1, ride2])) = Inr (JArr [ride1, ride2])"
    unfolding s by (simp add: bulk_parse_short) (simp add: example_builtins_def example_table_def)
  have u: "utf8_valid (JSON_stringify bulk_builtins (JArr [ride1, ride2]))"
    unfolding s by (simp add: byte_def)
  have l: "length COOKIE_NAME + length (uri_escape_all (JSON_stringify bulk_builtins (JArr [ride1, ride2]))) \<le> 4096"
    unfolding s by (simp add: COOKIE_NAME_def uri_escape_all_def uri_escape_def unreserved_def)
  have f: "foreign_ok []"
    by (simp add: foreign_ok_def)
  from cookie_roundtrip [OF p u l f]
  show ?thesis by (simp add: ledger1_def rides_effect_def ledger0_def)
qed

text \<open>
  C6, as amended. Importing a file whose text parses to a value that is not an array, or
  does not parse, leaves the rides and the cookie as they were and shows a message that
  starts with \<open>Invalid JSON: \<close>. Importing a file whose text parses to an array replaces
  the rides of the state by that array and shows the message of success; the handler
  leaves the cookie as it was. When the effect then runs, it writes the array: under the
  conditions of the round trip, reading the cookie back returns the array. Beyond the
  size limit of a cookie the browser drops the assignment of the effect, and the cookie
  is left as it was.
\<close>

theorem importRides_rejects_or_replaces:
  "(JSON_parse B txt = Inr v \<and> \<not> isArray v \<longrightarrow>
      importRides B (Some txt) st
        = st\<lparr>alerts := alerts st @ [''Invalid JSON: Expected an array of rides'']\<rparr>) \<and>
   (JSON_parse B txt = Inl msg \<longrightarrow>
      importRides B (Some txt) st = st\<lparr>alerts := alerts st @ [''Invalid JSON: '' @ msg]\<rparr>) \<and>
   (JSON_parse B txt = Inr (JArr xs) \<longrightarrow>
      importRides B (Some txt) st
        = \<lparr>rides = xs, cookies = cookies st,
           alerts = alerts st @ [''Imported rides into cookie.'']\<rparr>) \<and>
   (JSON_parse B txt = Inr (JArr xs) \<and>
    JSON_parse B (JSON_stringify B (JArr xs)) = Inr (JArr xs) \<and>
    utf8_valid (JSON_stringify B (JArr xs)) \<and>
    length COOKIE_NAME + length (uri_escape_all (JSON_stringify B (JArr xs))) \<le> 4096 \<and>
    foreign_ok (cookies st) \<longrightarrow>
      readRidesFromCookie B
        (document_cookie_get (cookies (rides_effect B (importRides B (Some txt) st)))) = xs) \<and>
   (JSON_parse B txt = Inr (JArr xs) \<and>
    4096 < length COOKIE_NAME + length (uri_escape_all (JSON_stringify B (JArr xs))) \<longrightarrow>
      cookies (rides_effect B (importRides B (Some txt) st)) = cookies st)"
proof -
  have a: "importRides B (Some txt) st
             = st\<lparr>alerts := alerts st @ [''Invalid JSON: Expected an array of rides'']\<rparr>"
    if "JSON_parse B txt = Inr v" "\<not> isArray v"
    using that by (simp add: importRides_def importRides_try_def alert_def)
  have b: "importRides B (Some txt) st = st\<lparr>alerts := alerts st @ [''Invalid JSON: '' @ msg]\<rparr>"
    if "JSON_parse B txt = Inl msg"
    using that by (simp add: importRides_def importRides_try_def alert_def)
  have c: "cookies (rides_effect B (importRides B (Some txt) st)) = writeRidesToCookie B xs (cookies st)"
    if "JSON_parse B txt = Inr (JArr xs)"
    using that by (simp add: import_array rides_effect_def)
  have d: "writeRidesToCookie B xs (cookies st) = cookies st"
    if "4096 < length COOKIE_NAME + length (uri_escape_all (JSON_stringify B (JArr xs)))"
    using that by (simp add: write_rides)
  from a b c d import_array [of B "txt" xs st] cookie_roundtrip [of B xs "cookies st"]
  show ?thesis by simp
qed

theorem importRides_rejects_or_replaces_witness:
  \<open>JSON_parse example_builtins ''{"not":"an array"}'' = Inr (JObj [(''not'', JStr ''an array'')]) \<and>
   \<not> isArray (JObj [(''not'', JStr ''an array'')]) \<and>
   importRides example_builtins (Some ''{"not":"an array"}'') ledger0
     = ledger0\<lparr>alerts := alerts ledger0 @ [''Invalid JSON: Expected an array of rides'']\<rparr> \<and>
   rides (importRides example_builtins (Some ''{"not":"an array"}'') ledger0) = [ride1, ride2] \<and>
   cookies (importRides example_builtins (Some ''{"not":"an array"}'') ledger0) = cookies ledger0 \<and>
   JSON_parse example_builtins ''not json'' = Inl ''Unexpected token'' \<and>
   importRides example_builtins (Some ''not json'') ledger0
     = ledger0\<lparr>alerts := alerts ledger0 @ [''Invalid JSON: Unexpected token'']\<rparr> \<and>
   JSON_parse example_builtins ''[{"id":"r2","trainNumber":"8778","line":"Q"}]'' = Inr (JArr [ride2]) \<and>
   importRides example_builtins (Some ''[{"id":"r2","trainNumber":"8778","line":"Q"}]'') ledger0
     = \<lparr>rides = [ride2], cookies = cookies ledger0,
        alerts = alerts ledger0 @ [''Imported rides into cookie.'']\<rparr> \<and>
   JSON_parse example_builtins (JSON_stringify example_builtins (JArr [ride2])) = Inr (JArr [ride2]) \<and>
   utf8_valid (JSON_stringify example_builtins (JArr [ride2])) \<and>
   length COOKIE_NAME + length (uri_escape_all (JSON_stringify example_builtins (JArr [ride2]))) \<le> 4096 \<and>
   foreign_ok (cookies ledger0) \<and>
   readRidesFromCookie example_builtins
     (document_cookie_get (cookies (rides_effect example_builtins
        (importRides example_builtins (Some ''[{"id":"r2","trainNumber":"8778","line":"Q"}]'') ledger0))))
     = [ride2] \<and>
   JSON_parse bulk_builtins hundred_text = Inr (JArr hundred_rides) \<and>
   4096 < length COOKIE_NAME + length (uri_escape_all (JSON_stringify bulk_builtins (JArr hundred_rides))) \<and>
   cookies (rides_effect bulk_builtins (importRides bulk_builtins (Some hundred_text) ledger0))
     = cookies ledger0\<close>
proof -
  have p1: \<open>JSON_parse example_builtins ''{"not":"an array"}'' = Inr (JObj [(''not'', JStr ''an array'')])\<close>
    by (simp add: example_builtins_def example_table_def)
  have p2: "JSON_parse example_builtins ''not json'' = Inl ''Unexpected token''"
    by (simp add: example_builtins_def example_table_def)
  have p3: \<open>JSON_parse example_builtins ''[{"id":"r2","trainNumber":"8778","line":"Q"}]'' = Inr (JArr [ride2])\<close>
    by (simp add: example_builtins_def example_table_def)
  have s: \<open>JSON_stringify example_builtins (JArr [ride2]) = ''[{"id":"r2","trainNumber":"8778","line":"Q"}]''\<close>
    by (simp add: example_builtins_def example_table_def ride1_def ride2_def)
  have p: "JSON_parse example_builtins (JSON_stringify example_builtins (JArr [ride2])) = Inr (JArr [ride2])"
    unfolding s by (rule p3)
  have u: "utf8_valid (JSON_stringify example_builtins (JArr [ride2]))"
    unfolding s by (simp add: byte_def)
  have l: "length COOKIE_NAME + length (uri_escape_all (JSON_stringify example_builtins (JArr [ride2]))) \<le> 4096"
    unfolding s by (simp add: COOKIE_NAME_def uri_escape_all_def uri_escape_def unreserved_def)
  have f: "foreign_ok (cookies ledger0)"
    by (simp add: foreign_ok_def ledger0_def)
  have t1: \<open>importRides example_builtins (Some ''{"not":"an array"}'') ledger0
              = ledger0\<lparr>alerts := alerts ledger0 @ [''Invalid JSON: Expected an array of rides'']\<rparr>\<close>
    using importRides_rejects_or_replaces
            [of example_builtins \<open>''{"not":"an array"}''\<close> "JObj [(''not'', JStr ''an array'')]" ledger0
                "''''" "[]"]
          p1
    by simp
  have t2: "importRides example_builtins (Some ''not json'') ledger0
              = ledger0\<lparr>alerts := alerts ledger0 @ [''Invalid JSON: Unexpected token'']\<rparr>"
    using importRides_rejects_or_replaces
            [of example_builtins "''not json''" JNull ledger0 "''Unexpected token''" "[]"]
          p2
    by simp
  have t3: \<open>importRides example_builtins (Some ''[{"id":"r2","trainNumber":"8778","line":"Q"}]'') ledger0
              = \<lparr>rides = [ride2], cookies = cookies ledger0,
                 alerts = alerts ledger0 @ [''Imported rides into cookie.'']\<rparr> \<and>
            readRidesFromCookie example_builtins
              (document_cookie_get (cookies (rides_effect example_builtins
                 (importRides example_builtins (Some ''[{"id":"r2","trainNumber":"8778","line":"Q"}]'') ledger0))))
              = [ride2]\<close>
    using importRides_rejects_or_replaces
            [of example_builtins \<open>''[{"id":"r2","trainNumber":"8778","line":"Q"}]''\<close> JNull ledger0
                "''''" "[ride2]"]
          p3 p u l f
    by blast
  have t4: "cookies (rides_effect bulk_builtins (importRides bulk_builtins (Some hundred_text) ledger0))
              = cookies ledger0"
    using importRides_rejects_or_replaces
            [of bulk_builtins hundred_text JNull ledger0 "''''" hundred_rides]
          hundred_parse hundred_oversize
    by blast
  have r: \<open>rides (importRides example_builtins (Some ''{"not":"an array"}'') ledger0) = [ride1, ride2]\<close>
          \<open>cookies (importRides example_builtins (Some ''{"not":"an array"}'') ledger0) = cookies ledger0\<close>
    unfolding t1 by (simp_all add: ledger0_def)
  have na: "\<not> isArray (JObj [(''not'', JStr ''an array'')])"
    by simp
  show ?thesis
    using p1 na p2 p3 p u l f hundred_parse hundred_oversize t1 t2 t3 t4 r by blast
qed

text \<open>
  C6, as stated, fails on a file of a hundred rides. Its text parses to an array, the
  rides of the state become that array and the message of success is shown; but the
  cookie the effect assigns is beyond the size limit, the browser drops it, and the
  cookie still holds the two rides of before: they, not the hundred, are what is read
  from it.
\<close>

theorem importRides_oversize_counterexample:
  "JSON_parse bulk_builtins hundred_text = Inr (JArr hundred_rides) \<and>
   rides (importRides bulk_builtins (Some hundred_text) ledger1) = hundred_rides \<and>
   alerts (importRides bulk_builtins (Some hundred_text) ledger1) = [''Imported rides into cookie.''] \<and>
   cookies (rides_effect bulk_builtins (importRides bulk_builtins (Some hundred_text) ledger1))
     = cookies ledger1 \<and>
   readRidesFromCookie bulk_builtins
     (document_cookie_get
        (cookies (rides_effect bulk_builtins (importRides bulk_builtins (Some hundred_text) ledger1))))
     = [ride1, ride2] \<and>
   [ride1, ride2] \<noteq> hundred_rides"
proof -
  have i: "importRides bulk_builtins (Some hundred_text) ledger1
             = \<lparr>rides = hundred_rides, cookies = cookies ledger1,
                alerts = alerts ledger1 @ [''Imported rides into cookie.'']\<rparr>"
    using hundred_parse by (rule import_array)
  have a: "alerts ledger1 = []"
    by (simp add: ledger1_def rides_effect_def ledger0_def)
  have w: "writeRidesToCookie bulk_builtins hundred_rides (cookies ledger1) = cookies ledger1"
    using hundred_oversize by (simp add: write_rides)
  have c: "cookies (rides_effect bulk_builtins (importRides bulk_builtins (Some hundred_text) ledger1))
             = cookies ledger1"
    unfolding i by (simp add: rides_effect_def w)
  have n: "[ride1, ride2] \<noteq> hundred_rides"
  proof
    assume "[ride1, ride2] = hundred_rides"
    then have "length [ride1, ride2] = length hundred_rides" by (rule arg_cong)
    then show False by (simp add: hundred_rides_length)
  qed
  show ?thesis
    unfolding c using hundred_parse i a n ledger1_read_back by simp
qed

subsection \<open>Deleting a ride\<close>





section \<open>Properties of the dataset store\<close>

text \<open>
  C8. \<open>loadDatasets\<close> catches a failure of the storage and returns \<open>null\<close>, but
  \<open>saveDatasets\<close> has no handler: when access to the storage is blocked, or when the
  storage has no room, the exception of \<open>setItem\<close> leaves \<open>saveDatasets\<close>, the \<open>save\<close>
  handler, \<open>prefillDatasets\<close> and \<open>getDatasets\<close>. With a blocked storage
  \<open>getDatasets\<close> does not fall back to the seed: it raises.
\<close>

theorem saveDatasets_raises:
  "loadDatasets B (st\<lparr>blocked := True\<rparr>) = JNull \<and>
   saveDatasets B ds (st\<lparr>blocked := True\<rparr>) = Inl SecurityError \<and>
   save B ds (st\<lparr>blocked := True\<rparr>, shown) = Inl SecurityError \<and>
   getDatasets B (st\<lparr>blocked := True\<rparr>) = Inl SecurityError \<and>
   saveDatasets B ds (st\<lparr>blocked := False, room := 0\<rparr>)
     = (if JSON_stringify B ds = [] then Inr (st\<lparr>blocked := False, room := 0, items := (items st)(DATA_KEY \<mapsto> [])\<rparr>)
        else Inl QuotaExceededError)"
  by (simp add: loadDatasets_def loadDatasets_try_def getItem_def saveDatasets_def setItem_def
      save_def getDatasets_def prefillDatasets_def)

section \<open>Properties of the edit operations\<close>

text \<open>
  C3. \<open>addRange\<close> writes the field \<open>ranges\<close> of the entry object that the snapshot it
  was given refers to: after \<open>addRange(0)\<close> on a snapshot with the one entry \<open>R211A\<close>,
  that same snapshot holds an entry with the two ranges \<open>[4000, 4399]\<close> and \<open>[0, 0]\<close>.
\<close>

theorem addRange_changes_old_snapshot:
  "snapshot_value store0 snapshot0 = ([R211A], []) \<and>
   (case addRange 0 snapshot0 store0 of
      Inl e \<Rightarrow> None
    | Inr (next, h') \<Rightarrow> Some (next, snapshot_value h' snapshot0))
     = Some (snapshot0, [R211A\<lparr>ranges := [(Num 4000, Num 4399), (Num 0, Num 0)]\<rparr>], [])"
  by (simp add: addRange_def snapshot_value_def store0_def snapshot0_def R211A_def)

text \<open>
  The seven other edit operations copy: the snapshot they were given holds the same
  entries afterwards.
\<close>

lemma extends_refl: "extends h h"
  by (simp add: extends_def)

lemma extends_trans: "extends h h1 \<Longrightarrow> extends h1 h2 \<Longrightarrow> extends h h2"
  by (auto simp: extends_def)

lemma extends_new_stock: "extends h (snd (new_stock e h))"
  by (simp add: extends_def new_stock_def)

lemma extends_new_line: "extends h (snd (new_line l h))"
  by (simp add: extends_def new_line_def)

lemma map_indexed_extends:
  assumes "\<And>i a h. extends h (snd (f i a h))"
  shows "extends h (snd (map_indexed f i as h))"
proof (induction as arbitrary: i h)
  case Nil
  show ?case by (simp add: extends_refl)
next
  case (Cons a as)
  obtain a' h1 where f: "f i a h = (a', h1)" by (cases "f i a h")
  obtain as' h2 where m: "map_indexed f (Suc i) as h1 = (as', h2)"
    by (cases "map_indexed f (Suc i) as h1")
  have "extends h h1" using assms [where h = h and i = i and a = a] f by simp
  moreover have "extends h1 h2" using Cons.IH [where i = "Suc i" and h = h1] m by simp
  ultimately show ?case using f m by (simp add: extends_trans)
qed

lemma extends_frame: "allocated h ds \<Longrightarrow> extends h h' \<Longrightarrow> snapshot_value h' ds = snapshot_value h ds"
  by (simp add: allocated_def extends_def snapshot_value_def list_all_iff)

lemma copying_edits_keep_old_snapshot:
  assumes "allocated h ds"
  shows "snapshot_value (snd (addStock ds h)) ds = snapshot_value h ds"
    and "snapshot_value (snd (addLine ds h)) ds = snapshot_value h ds"
    and "snapshot_value (snd (updateStock idx field v ds h)) ds = snapshot_value h ds"
    and "snapshot_value (snd (updateStockRange idx rIdx which txt ds h)) ds = snapshot_value h ds"
    and "snapshot_value (snd (removeStock idx ds h)) ds = snapshot_value h ds"
    and "snapshot_value (snd (updateLine idx fv ds h)) ds = snapshot_value h ds"
    and "snapshot_value (snd (removeLine idx ds h)) ds = snapshot_value h ds"
proof -
  have 1: "extends h (snd (addStock ds h))"
    by (simp add: addStock_def Let_def case_prod_unfold extends_new_stock)
  have 2: "extends h (snd (addLine ds h))"
    by (simp add: addLine_def Let_def case_prod_unfold extends_new_line)
  have 3: "extends h (snd (updateStock idx field v ds h))"
    by (simp add: updateStock_def Let_def case_prod_unfold)
       (rule map_indexed_extends, simp add: extends_new_stock extends_refl)
  have 4: "extends h (snd (updateStockRange idx rIdx which txt ds h))"
    unfolding updateStockRange_def Let_def case_prod_unfold snd_conv
    by (rule map_indexed_extends) (simp add: extends_new_stock extends_refl)
  have 6: "extends h (snd (updateLine idx fv ds h))"
    by (simp add: updateLine_def Let_def case_prod_unfold)
       (rule map_indexed_extends, simp add: extends_new_line extends_refl)
  show "snapshot_value (snd (addStock ds h)) ds = snapshot_value h ds"
    using assms 1 by (rule extends_frame)
  show "snapshot_value (snd (addLine ds h)) ds = snapshot_value h ds"
    using assms 2 by (rule extends_frame)
  show "snapshot_value (snd (updateStock idx field v ds h)) ds = snapshot_value h ds"
    using assms 3 by (rule extends_frame)
  show "snapshot_value (snd (updateStockRange idx rIdx which txt ds h)) ds = snapshot_value h ds"
    using assms 4 by (rule extends_frame)
  show "snapshot_value (snd (removeStock idx ds h)) ds = snapshot_value h ds"
    by (simp add: removeStock_def)
  show "snapshot_value (snd (updateLine idx fv ds h)) ds = snapshot_value h ds"
    using assms 6 by (rule extends_frame)
  show "snapshot_value (snd (removeLine idx ds h)) ds = snapshot_value h ds"
    by (simp add: removeLine_def)
qed

lemma updateStock_copies_example:
  "allocated store0 snapshot0 \<and>
   (case updateStock 0 Model_field ''R211B'' snapshot0 store0 of
      (next, h') \<Rightarrow> (snapshot_value h' snapshot0, snapshot_value h' next))
     = (([R211A], []), ([R211A\<lparr>model := ''R211B''\<rparr>], []))"
  by (simp add: allocated_def updateStock_def new_stock_def snapshot_value_def store0_def
      snapshot0_def)

end
